theory Spec2Isabelle
  imports Main "HOL-Library.Sublist"
begin

section \<open>The MongoDB transport of kombu (kombu/transport/mongodb.py)\<close>

text \<open>
  The channel keeps messages in three collections of a document store: \<open>messages\<close>
  (point-to-point queues), \<open>messages.broadcast\<close> (a capped collection read through
  tailing cursors, one per fanout queue) and \<open>messages.routing\<close> (the durable
  bindings). Every method of \<open>Channel\<close> is a function from the state before the call
  to a result and the state after it. A Python exception is the left injection of the
  result; the state that comes with it holds the effects that happened before the raise.
\<close>

type_synonym queue = string
type_synonym exchange = string

datatype error =
    Empty
  | StopIteration
  | OperationFailure string
  | ConnectionFailure string
  | NotImplementedError string
  | CollectionInvalid
  | InvalidName
  | KeyError
  | AttributeError
  | TypeError
  | ValueError

subsection \<open>Documents and the store\<close>

record message_doc =
  doc_id :: nat
  doc_queue :: string
  doc_payload :: string

record broadcast_doc =
  bc_queue :: string
  bc_payload :: string

record routing_doc =
  r_exchange :: string
  r_queue :: string
  r_routing_key :: string
  r_pattern :: string

record database =
  collection_names :: "string list"
  capped :: "(string \<times> int) list"
  indexes :: "(string \<times> (string \<times> int) list) list"
  messages_docs :: "message_doc list"
  broadcast_docs :: "broadcast_doc list"
  routing_docs :: "routing_doc list"

datatype store_failure = OpFail string | ConnFail string

fun to_error :: "store_failure \<Rightarrow> error" where
  "to_error (OpFail m) = OperationFailure m"
| "to_error (ConnFail m) = ConnectionFailure m"

text \<open>
  Modelled from the spec: the store and its client (MongoDB, pymongo) are external to
  the repository. A collection is the list of its documents in insertion order; the
  identifier of a new \<open>messages\<close> document is the next value of a counter, so
  identifiers grow with insertion. \<open>fault\<close> is the condition of the server: while it
  is \<open>Some f\<close> every round trip to the store raises \<open>f\<close>. \<open>raises_no_match\<close>
  tells how the server answers a find-and-remove that matches nothing: with an operation
  failure (servers before 2.0, as the comment in \<open>_get\<close> says) or with a null value.
  \<open>record_bytes\<close> is the number of bytes a broadcast document takes in the capped
  collection.
\<close>

record server =
  version :: string
  dbs :: "string \<Rightarrow> database"
  next_id :: nat
  fault :: "store_failure option"
  raises_no_match :: bool
  record_bytes :: "broadcast_doc \<Rightarrow> nat"

text \<open>A pymongo cursor over \<open>messages.broadcast\<close>: its collection's database, its
  skip count and how many documents it has returned since it was created or rewound.
  The cursors of the channel have no filter, see \<open>bcast_find\<close> below.\<close>

record cursor =
  cur_db :: string
  cur_skip :: nat
  cur_retrieved :: nat

subsection \<open>The channel\<close>

text \<open>\<open>self.connection.client\<close>: of the connection parameters, \<open>_open\<close> reads the
  virtual host and the transport option \<open>capped_queue_size\<close> for the store's schema;
  host name, user and TLS flag only go into the address of the server.\<close>

record client_cfg =
  virtual_host :: "string option"
  capped_queue_size :: "int option"

text \<open>
  \<open>fanout_queues\<close> is the class attribute \<open>Channel._fanout_queues\<close> and \<open>mongo\<close>
  the store; the other fields are attributes of the instance. \<open>client\<close> is
  \<open>self._client\<close>; a database handle is the database's name.

  Modelled from the spec: the surrounding framework (kombu.transport.virtual) is not
  part of the sources. \<open>exchange_type\<close> is what \<open>self.typeof(exchange).type\<close>
  returns and \<open>exchange_table\<close> is \<open>self.state.exchanges[exchange]['table']\<close>, the
  channel-local bindings cache.
\<close>

record state =
  fanout_queues :: "queue \<rightharpoonup> exchange"
  mongo :: server
  connection_client :: client_cfg
  client :: "string option"
  db :: "string option"
  bcast :: "string option"
  routing :: "string option"
  queue_cursors :: "queue \<rightharpoonup> cursor"
  queue_readcounts :: "queue \<rightharpoonup> int"
  exchange_type :: "exchange \<Rightarrow> string"
  exchange_table :: "exchange \<rightharpoonup> (string \<times> string \<times> string) list"

definition the_db :: "string \<Rightarrow> state \<Rightarrow> database" where
  "the_db d s = dbs (mongo s) d"

definition upd_db :: "string \<Rightarrow> (database \<Rightarrow> database) \<Rightarrow> state \<Rightarrow> state" where
  "upd_db d f s = s\<lparr>mongo := (mongo s)\<lparr>dbs := (dbs (mongo s))(d := f (dbs (mongo s) d))\<rparr>\<rparr>"

subsection \<open>Strings and tuples of Python\<close>

text \<open>\<open>sub in s\<close> on strings.\<close>

fun starts_with :: "string \<Rightarrow> string \<Rightarrow> bool" where
  "starts_with [] s = True"
| "starts_with (c # cs) [] = False"
| "starts_with (c # cs) (x # xs) = (c = x \<and> starts_with cs xs)"

fun contains :: "string \<Rightarrow> string \<Rightarrow> bool" where
  "contains sub [] = (sub = [])"
| "contains sub (x # xs) = (starts_with sub (x # xs) \<or> contains sub xs)"

text \<open>\<open>s.split(c)\<close> with a separator of one character.\<close>

fun split_on :: "char \<Rightarrow> string \<Rightarrow> string list" where
  "split_on c [] = [[]]"
| "split_on c (x # xs) =
     (if x = c then [] # split_on c xs
      else (case split_on c xs of [] \<Rightarrow> [[x]] | w # ws \<Rightarrow> (x # w) # ws))"

definition is_space :: "char \<Rightarrow> bool" where
  "is_space c = (c = CHR '' '' \<or> c = CHR 0x09 \<or> c = CHR 0x0A \<or> c = CHR 0x0B
                 \<or> c = CHR 0x0C \<or> c = CHR 0x0D)"

definition strip :: "string \<Rightarrow> string" where
  "strip s = rev (dropWhile is_space (rev (dropWhile is_space s)))"

definition digit_val :: "char \<Rightarrow> nat option" where
  "digit_val c = (if 48 \<le> (of_char c :: nat) \<and> (of_char c :: nat) \<le> 57
                  then Some (of_char c - 48) else None)"

fun digits_val :: "nat \<Rightarrow> string \<Rightarrow> nat option" where
  "digits_val acc [] = Some acc"
| "digits_val acc (c # cs) =
     (case digit_val c of None \<Rightarrow> None | Some d \<Rightarrow> digits_val (10 * acc + d) cs)"

text \<open>\<open>int(s)\<close> on a string: blanks around, an optional sign, decimal digits;
  \<open>None\<close> is the ValueError.\<close>

definition py_int :: "string \<Rightarrow> int option" where
  "py_int s =
     (case strip s of
        [] \<Rightarrow> None
      | c # cs \<Rightarrow>
          if c = CHR ''-'' then (if cs = [] then None
                                 else map_option (\<lambda>n. - int n) (digits_val 0 cs))
          else if c = CHR ''+'' then (if cs = [] then None
                                      else map_option int (digits_val 0 cs))
          else map_option int (digits_val 0 (c # cs)))"

text \<open>\<open>tuple(map(int, version.split('.')[:2]))\<close>\<close>

definition version_tuple :: "string \<Rightarrow> int list option" where
  "version_tuple v = those (map py_int (take 2 (split_on CHR ''.'' v)))"

text \<open>\<open><\<close> on tuples of integers: lexicographic, a proper prefix is smaller.\<close>

fun tuple_lt :: "int list \<Rightarrow> int list \<Rightarrow> bool" where
  "tuple_lt [] [] = False"
| "tuple_lt [] (y # ys) = True"
| "tuple_lt (x # xs) [] = False"
| "tuple_lt (x # xs) (y # ys) = (if x = y then tuple_lt xs ys else x < y)"

subsection \<open>Operations of the store client\<close>

text \<open>Modelled from the spec: the operations of pymongo that the channel calls, on the
  store described above. Each is one round trip and raises the server's fault, if any.\<close>

text \<open>\<open>Connection(host=..., ssl=...)\<close> connects when it is made.\<close>

definition Connection :: "state \<Rightarrow> error + unit" where
  "Connection s = (case fault (mongo s) of Some f \<Rightarrow> Inl (to_error f) | None \<Rightarrow> Inr ())"

text \<open>\<open>getattr(mongoconn, dbname)\<close> makes a database object, and pymongo checks the
  name when it does: the empty name and a name with a blank, a dot, a dollar, a slash or
  a backslash raise InvalidName.\<close>

definition valid_database_name :: "string \<Rightarrow> bool" where
  "valid_database_name n =
     (n \<noteq> [] \<and> CHR '' '' \<notin> set n \<and> CHR ''.'' \<notin> set n \<and> CHR ''$'' \<notin> set n \<and>
      CHR ''/'' \<notin> set n \<and> CHR 0x5C \<notin> set n)"

definition server_info :: "state \<Rightarrow> error + string" where
  "server_info s = (case fault (mongo s) of Some f \<Rightarrow> Inl (to_error f)
                    | None \<Rightarrow> Inr (version (mongo s)))"

text \<open>\<open>ensure_index\<close> creates the index if it is not there, and with it the
  collection.\<close>

definition ensure_index ::
  "string \<Rightarrow> string \<Rightarrow> (string \<times> int) list \<Rightarrow> state \<Rightarrow> (error + unit) \<times> state" where
  "ensure_index d coll keys s =
     (case fault (mongo s) of Some f \<Rightarrow> (Inl (to_error f), s)
      | None \<Rightarrow> (Inr (), upd_db d (\<lambda>b. b\<lparr>collection_names := List.insert coll (collection_names b),
                                          indexes := List.insert (coll, keys) (indexes b)\<rparr>) s))"

definition get_collection_names :: "string \<Rightarrow> state \<Rightarrow> error + string list" where
  "get_collection_names d s = (case fault (mongo s) of Some f \<Rightarrow> Inl (to_error f)
                               | None \<Rightarrow> Inr (collection_names (the_db d s)))"

definition create_collection ::
  "string \<Rightarrow> string \<Rightarrow> int \<Rightarrow> state \<Rightarrow> (error + unit) \<times> state" where
  "create_collection d name capsize s =
     (case fault (mongo s) of Some f \<Rightarrow> (Inl (to_error f), s)
      | None \<Rightarrow>
          if name \<in> set (collection_names (the_db d s)) then (Inl CollectionInvalid, s)
          else (Inr (), upd_db d (\<lambda>b. b\<lparr>collection_names := collection_names b @ [name],
                                         capped := capped b @ [(name, capsize)]\<rparr>) s))"

text \<open>\<open>messages.insert\<close>: the new document gets the next identifier.\<close>

definition messages_insert ::
  "string \<Rightarrow> string \<Rightarrow> queue \<Rightarrow> state \<Rightarrow> (error + unit) \<times> state" where
  "messages_insert d payload queue s =
     (case fault (mongo s) of Some f \<Rightarrow> (Inl (to_error f), s)
      | None \<Rightarrow>
          (Inr (),
           s\<lparr>mongo := (mongo s)
               \<lparr>dbs := (dbs (mongo s))
                  (d := (dbs (mongo s) d)
                     \<lparr>collection_names := List.insert ''messages'' (collection_names (dbs (mongo s) d)),
                      messages_docs := messages_docs (dbs (mongo s) d) @
                        [\<lparr>doc_id = next_id (mongo s), doc_queue = queue, doc_payload = payload\<rparr>]\<rparr>),
                next_id := Suc (next_id (mongo s))\<rparr>\<rparr>))"

definition messages_count :: "string \<Rightarrow> queue \<Rightarrow> state \<Rightarrow> error + nat" where
  "messages_count d queue s =
     (case fault (mongo s) of Some f \<Rightarrow> Inl (to_error f)
      | None \<Rightarrow> Inr (length (filter (\<lambda>m. doc_queue m = queue) (messages_docs (the_db d s)))))"

definition messages_remove :: "string \<Rightarrow> queue \<Rightarrow> state \<Rightarrow> (error + unit) \<times> state" where
  "messages_remove d queue s =
     (case fault (mongo s) of Some f \<Rightarrow> (Inl (to_error f), s)
      | None \<Rightarrow> (Inr (), upd_db d (\<lambda>b. b\<lparr>messages_docs :=
                                 filter (\<lambda>m. doc_queue m \<noteq> queue) (messages_docs b)\<rparr>) s))"

text \<open>The first document in ascending order of \<open>_id\<close>.\<close>

fun oldest :: "message_doc list \<Rightarrow> message_doc option" where
  "oldest [] = None"
| "oldest (m # ms) =
     (case oldest ms of None \<Rightarrow> Some m
      | Some e \<Rightarrow> if doc_id m \<le> doc_id e then Some m else Some e)"

definition no_match_errmsg :: string where
  "no_match_errmsg = ''command failed: No matching object found''"

text \<open>The command \<open>findandmodify\<close> on \<open>messages\<close> with \<open>query={'queue': queue}\<close>,
  \<open>sort={'_id': ASCENDING}\<close> and \<open>remove=True\<close>; the result is the \<open>value\<close> of the
  reply.\<close>

definition findandmodify ::
  "string \<Rightarrow> queue \<Rightarrow> state \<Rightarrow> (error + message_doc option) \<times> state" where
  "findandmodify d queue s =
     (case fault (mongo s) of Some f \<Rightarrow> (Inl (to_error f), s)
      | None \<Rightarrow>
          (case oldest (filter (\<lambda>m. doc_queue m = queue) (messages_docs (the_db d s))) of
             None \<Rightarrow> if raises_no_match (mongo s) then (Inl (OperationFailure no_match_errmsg), s)
                     else (Inr None, s)
           | Some m \<Rightarrow> (Inr (Some m),
                         upd_db d (\<lambda>b. b\<lparr>messages_docs := remove1 m (messages_docs b)\<rparr>) s)))"

text \<open>A capped collection evicts its oldest documents once it is over its size in
  bytes: after an insert, documents are dropped from the front until the rest fits.\<close>

fun evict :: "(broadcast_doc \<Rightarrow> nat) \<Rightarrow> int \<Rightarrow> broadcast_doc list \<Rightarrow> broadcast_doc list" where
  "evict bytes capsize [] = []"
| "evict bytes capsize (b # bs) =
     (if int (sum_list (map bytes (b # bs))) \<le> capsize then b # bs
      else evict bytes capsize bs)"

definition broadcast_insert ::
  "string \<Rightarrow> string \<Rightarrow> exchange \<Rightarrow> state \<Rightarrow> (error + unit) \<times> state" where
  "broadcast_insert d payload exchange s =
     (case fault (mongo s) of Some f \<Rightarrow> (Inl (to_error f), s)
      | None \<Rightarrow>
          (Inr (),
           upd_db d (\<lambda>b. b\<lparr>collection_names :=
                              List.insert ''messages.broadcast'' (collection_names b),
                            broadcast_docs :=
                              (case map_of (capped b) ''messages.broadcast'' of
                                 None \<Rightarrow> broadcast_docs b @
                                          [\<lparr>bc_queue = exchange, bc_payload = payload\<rparr>]
                               | Some capsize \<Rightarrow>
                                   evict (record_bytes (mongo s)) capsize
                                     (broadcast_docs b @
                                        [\<lparr>bc_queue = exchange, bc_payload = payload\<rparr>]))\<rparr>) s))"

text \<open>\<open>update(spec, doc, upsert=True)\<close>: the first document that matches \<open>spec\<close>
  is replaced by \<open>doc\<close>; without a match \<open>doc\<close> is inserted.\<close>

fun replace_first :: "('a \<Rightarrow> bool) \<Rightarrow> 'a \<Rightarrow> 'a list \<Rightarrow> 'a list" where
  "replace_first P y [] = []"
| "replace_first P y (x # xs) = (if P x then y # xs else x # replace_first P y xs)"

definition routing_update_upsert ::
  "string \<Rightarrow> routing_doc \<Rightarrow> routing_doc \<Rightarrow> state \<Rightarrow> (error + unit) \<times> state" where
  "routing_update_upsert d spec doc s =
     (case fault (mongo s) of Some f \<Rightarrow> (Inl (to_error f), s)
      | None \<Rightarrow>
          (Inr (), upd_db d (\<lambda>b. b\<lparr>collection_names :=
                                 List.insert ''messages.routing'' (collection_names b),
                               routing_docs :=
                                 (if \<exists>r \<in> set (routing_docs b). r = spec
                                  then replace_first (\<lambda>r. r = spec) doc (routing_docs b)
                                  else routing_docs b @ [doc])\<rparr>) s))"

definition routing_remove :: "string \<Rightarrow> queue \<Rightarrow> state \<Rightarrow> (error + unit) \<times> state" where
  "routing_remove d queue s =
     (case fault (mongo s) of Some f \<Rightarrow> (Inl (to_error f), s)
      | None \<Rightarrow> (Inr (), upd_db d (\<lambda>b. b\<lparr>routing_docs :=
                                 filter (\<lambda>r. r_queue r \<noteq> queue) (routing_docs b)\<rparr>) s))"

definition routing_find :: "string \<Rightarrow> exchange \<Rightarrow> state \<Rightarrow> error + routing_doc list" where
  "routing_find d exchange s =
     (case fault (mongo s) of Some f \<Rightarrow> Inl (to_error f)
      | None \<Rightarrow> Inr (filter (\<lambda>r. r_exchange r = exchange) (routing_docs (the_db d s))))"

text \<open>
  Modelled from the spec: a tailing cursor keeps producing documents appended after it
  reached the end. \<open>find\<close> builds the cursor without a round trip; \<open>count\<close> counts the
  documents the cursor is over, whatever the skip; \<open>skip\<close> is applied to a cursor
  that is new or rewound; \<open>next\<close> returns the document after those skipped and
  those already returned, or raises StopIteration. A position is an index into the
  documents that are in the collection.

  \<open>self.bcast.find(query={'queue': exchange}, sort=[('$natural', 1)], tailable=True)\<close>:
  the filter of pymongo's \<open>find\<close> is its argument \<open>spec\<close>. The channel gives its
  filter under the keyword \<open>query\<close>, which \<open>find\<close> passes on unused, so \<open>spec\<close>
  stays empty and the cursor is over every document of the collection, in natural
  order. (\<open>_size\<close> and \<open>get_table\<close> give their filters by position.)
\<close>

definition bcast_find :: "string \<Rightarrow> exchange \<Rightarrow> cursor" where
  "bcast_find d query = \<lparr>cur_db = d, cur_skip = 0, cur_retrieved = 0\<rparr>"

definition cursor_matching :: "cursor \<Rightarrow> state \<Rightarrow> broadcast_doc list" where
  "cursor_matching c s = broadcast_docs (the_db (cur_db c) s)"

definition cursor_count :: "cursor \<Rightarrow> state \<Rightarrow> error + nat" where
  "cursor_count c s = (case fault (mongo s) of Some f \<Rightarrow> Inl (to_error f)
                       | None \<Rightarrow> Inr (length (cursor_matching c s)))"

definition cursor_skip :: "nat \<Rightarrow> cursor \<Rightarrow> cursor" where
  "cursor_skip n c = c\<lparr>cur_skip := n\<rparr>"

definition cursor_rewind :: "cursor \<Rightarrow> cursor" where
  "cursor_rewind c = c\<lparr>cur_retrieved := 0\<rparr>"

definition cursor_next :: "cursor \<Rightarrow> state \<Rightarrow> error + (broadcast_doc \<times> cursor)" where
  "cursor_next c s =
     (case fault (mongo s) of Some f \<Rightarrow> Inl (to_error f)
      | None \<Rightarrow>
          if cur_skip c + cur_retrieved c < length (cursor_matching c s)
          then Inr (cursor_matching c s ! (cur_skip c + cur_retrieved c),
                    c\<lparr>cur_retrieved := Suc (cur_retrieved c)\<rparr>)
          else Inl StopIteration)"

subsection \<open>The methods of Channel\<close>

definition Channel_new_queue :: "queue \<Rightarrow> state \<Rightarrow> (error + unit) \<times> state" where
  "Channel_new_queue queue s = (Inr (), s)"

text \<open>\<open>_open\<close>. Both branches on \<open>client.userid\<close> evaluate
  \<open>'/' + client.virtual_host\<close>, a TypeError when the virtual host is None. The
  address \<open>mongodb://...\<close> built there from host name, user and virtual host
  says which server is contacted; the model has the one server \<open>mongo\<close>. The
  connection is opened, the database object is made and the server is asked for its
  version before anything is written.\<close>

definition Channel_open :: "state \<Rightarrow> (error + string) \<times> state" where
  "Channel_open s =
     (case virtual_host (connection_client s) of
        None \<Rightarrow> (Inl TypeError, s)
      | Some vh \<Rightarrow>
          let dbname = (if vh = ''/'' then ''kombu_default'' else vh) in
          (case Connection s of
             Inl e \<Rightarrow> (Inl e, s)
           | Inr _ \<Rightarrow>
          if \<not> valid_database_name dbname then (Inl InvalidName, s)
          else
          (case server_info s of
             Inl e \<Rightarrow> (Inl e, s)
           | Inr v \<Rightarrow>
               (case version_tuple v of
                  None \<Rightarrow> (Inl ValueError, s)
                | Some t \<Rightarrow>
                    if tuple_lt t [1, 3]
                    then (Inl (NotImplementedError
                                 (''Kombu requires MongoDB version 1.3+ (server is '' @ v @ '')'')),
                          s)
                    else
                      let s1 = s\<lparr>db := Some dbname\<rparr> in
                      (case ensure_index dbname ''messages'' [(''queue'', 1), (''_id'', 1)] s1 of
                         (Inl e, s2) \<Rightarrow> (Inl e, s2)
                       | (Inr _, s2) \<Rightarrow>
                           (case get_collection_names dbname s2 of
                              Inl e \<Rightarrow> (Inl e, s2)
                            | Inr names \<Rightarrow>
                                (case (if ''messages.broadcast'' \<notin> set names
                                       then create_collection dbname ''messages.broadcast''
                                              (case capped_queue_size (connection_client s2) of
                                                 None \<Rightarrow> 100000
                                               | Some n \<Rightarrow> if n = 0 then 100000 else n) s2
                                       else (Inr (), s2)) of
                                   (Inl e, s3) \<Rightarrow> (Inl e, s3)
                                 | (Inr _, s3) \<Rightarrow>
                                     let s4 = s3\<lparr>bcast := Some dbname\<rparr> in
                                     (case ensure_index dbname ''messages.broadcast''
                                             [(''queue'', 1)] s4 of
                                        (Inl e, s5) \<Rightarrow> (Inl e, s5)
                                      | (Inr _, s5) \<Rightarrow>
                                          let s6 = s5\<lparr>routing := Some dbname\<rparr> in
                                          (case ensure_index dbname ''messages.routing''
                                                  [(''queue'', 1), (''exchange'', 1)] s6 of
                                             (Inl e, s7) \<Rightarrow> (Inl e, s7)
                                           | (Inr _, s7) \<Rightarrow> (Inr dbname, s7))))))))))"

text \<open>The property \<open>client\<close>.\<close>

definition Channel_client :: "state \<Rightarrow> (error + string) \<times> state" where
  "Channel_client s =
     (case client s of
        None \<Rightarrow> (case Channel_open s of
                   (Inl e, s1) \<Rightarrow> (Inl e, s1)
                 | (Inr d, s1) \<Rightarrow> (Inr d, s1\<lparr>client := Some d\<rparr>))
      | Some d \<Rightarrow> (Inr d, s))"

definition Channel_ensure_cursor :: "queue \<Rightarrow> state \<Rightarrow> (error + unit) \<times> state" where
  "Channel_ensure_cursor queue s =
     (case Channel_client s of
        (Inl e, s1) \<Rightarrow> (Inl e, s1)
      | (Inr _, s1) \<Rightarrow>
          (case fanout_queues s1 queue of
             None \<Rightarrow> (Inl KeyError, s1)
           | Some exchange \<Rightarrow>
               (case queue_cursors s1 queue of
                  Some _ \<Rightarrow> (Inr (), s1)
                | None \<Rightarrow>
                    (case bcast s1 of
                       None \<Rightarrow> (Inl AttributeError, s1)
                     | Some b \<Rightarrow>
                         (case cursor_count (bcast_find b exchange) s1 of
                            Inl e \<Rightarrow> (Inl e, s1)
                          | Inr count \<Rightarrow>
                              (Inr (),
                               s1\<lparr>queue_cursors := (queue_cursors s1)
                                     (queue \<mapsto> cursor_skip count (bcast_find b exchange)),
                                   queue_readcounts := (queue_readcounts s1)
                                     (queue \<mapsto> int count)\<rparr>))))))"

text \<open>The two except clauses of \<open>_get\<close>, applied to what the try block raised.\<close>

definition get_except :: "error \<Rightarrow> error" where
  "get_except e =
     (case e of
        OperationFailure m \<Rightarrow>
          if contains ''No matching object found'' m then Empty else OperationFailure m
      | StopIteration \<Rightarrow> Empty
      | _ \<Rightarrow> e)"

definition Channel_get :: "(string \<Rightarrow> 'm) \<Rightarrow> queue \<Rightarrow> state \<Rightarrow> (error + 'm) \<times> state" where
  "Channel_get loads queue s =
     (if queue \<in> dom (fanout_queues s) then
        (case Channel_ensure_cursor queue s of
           (Inl e, s1) \<Rightarrow> (Inl (get_except e), s1)
         | (Inr _, s1) \<Rightarrow>
             (case queue_cursors s1 queue of
                None \<Rightarrow> (Inl (get_except KeyError), s1)
              | Some c \<Rightarrow>
                  (case cursor_next c s1 of
                     Inl e \<Rightarrow> (Inl (get_except e), s1)
                   | Inr (msg, c') \<Rightarrow>
                       (case queue_readcounts s1 queue of
                          None \<Rightarrow> (Inl (get_except KeyError),
                                   s1\<lparr>queue_cursors := (queue_cursors s1)(queue \<mapsto> c')\<rparr>)
                        | Some n \<Rightarrow>
                            (Inr (loads (bc_payload msg)),
                             s1\<lparr>queue_cursors := (queue_cursors s1)(queue \<mapsto> c'),
                                 queue_readcounts := (queue_readcounts s1)(queue \<mapsto> n + 1)\<rparr>)))))
      else
        (case Channel_client s of
           (Inl e, s1) \<Rightarrow> (Inl (get_except e), s1)
         | (Inr d, s1) \<Rightarrow>
             (case findandmodify d queue s1 of
                (Inl e, s2) \<Rightarrow> (Inl (get_except e), s2)
              | (Inr None, s2) \<Rightarrow> (Inl Empty, s2)
              | (Inr (Some m), s2) \<Rightarrow> (Inr (loads (doc_payload m)), s2))))"

definition Channel_size :: "queue \<Rightarrow> state \<Rightarrow> (error + int) \<times> state" where
  "Channel_size queue s =
     (if queue \<in> dom (fanout_queues s) then
        (case Channel_ensure_cursor queue s of
           (Inl e, s1) \<Rightarrow> (Inl e, s1)
         | (Inr _, s1) \<Rightarrow>
             (case queue_cursors s1 queue of
                None \<Rightarrow> (Inl KeyError, s1)
              | Some c \<Rightarrow>
                  (case cursor_count c s1 of
                     Inl e \<Rightarrow> (Inl e, s1)
                   | Inr n \<Rightarrow>
                       (case queue_readcounts s1 queue of
                          None \<Rightarrow> (Inl KeyError, s1)
                        | Some r \<Rightarrow> (Inr (int n - r), s1)))))
      else
        (case Channel_client s of
           (Inl e, s1) \<Rightarrow> (Inl e, s1)
         | (Inr d, s1) \<Rightarrow>
             (case messages_count d queue s1 of
                Inl e \<Rightarrow> (Inl e, s1)
              | Inr n \<Rightarrow> (Inr (int n), s1))))"

definition Channel_put ::
  "('m \<Rightarrow> string) \<Rightarrow> queue \<Rightarrow> 'm \<Rightarrow> state \<Rightarrow> (error + unit) \<times> state" where
  "Channel_put dumps queue message s =
     (case Channel_client s of
        (Inl e, s1) \<Rightarrow> (Inl e, s1)
      | (Inr d, s1) \<Rightarrow> messages_insert d (dumps message) queue s1)"

definition Channel_purge :: "queue \<Rightarrow> state \<Rightarrow> (error + int) \<times> state" where
  "Channel_purge queue s =
     (case Channel_size queue s of
        (Inl e, s1) \<Rightarrow> (Inl e, s1)
      | (Inr size_before, s1) \<Rightarrow>
          if queue \<in> dom (fanout_queues s1) then
            (case queue_cursors s1 queue of
               None \<Rightarrow> (Inl KeyError, s1)
             | Some cursor \<Rightarrow>
                 (case cursor_count (cursor_rewind cursor) s1 of
                    Inl e \<Rightarrow> (Inl e, s1\<lparr>queue_cursors := (queue_cursors s1)
                                          (queue \<mapsto> cursor_rewind cursor)\<rparr>)
                  | Inr n \<Rightarrow>
                      (Inr size_before,
                       s1\<lparr>queue_cursors := (queue_cursors s1)
                             (queue \<mapsto> cursor_skip n (cursor_rewind cursor))\<rparr>)))
          else
            (case Channel_client s1 of
               (Inl e, s2) \<Rightarrow> (Inl e, s2)
             | (Inr d, s2) \<Rightarrow>
                 (case messages_remove d queue s2 of
                    (Inl e, s3) \<Rightarrow> (Inl e, s3)
                  | (Inr _, s3) \<Rightarrow> (Inr size_before, s3))))"

definition Channel_put_fanout ::
  "('m \<Rightarrow> string) \<Rightarrow> exchange \<Rightarrow> 'm \<Rightarrow> state \<Rightarrow> (error + unit) \<times> state" where
  "Channel_put_fanout dumps exchange message s =
     (case Channel_client s of
        (Inl e, s1) \<Rightarrow> (Inl e, s1)
      | (Inr d, s1) \<Rightarrow> broadcast_insert d (dumps message) exchange s1)"

definition Channel_queue_bind ::
  "exchange \<Rightarrow> string \<Rightarrow> string \<Rightarrow> queue \<Rightarrow> state \<Rightarrow> (error + unit) \<times> state" where
  "Channel_queue_bind exchange routing_key pattern queue s =
     (case (if exchange_type s exchange = ''fanout''
            then Channel_ensure_cursor queue
                   (s\<lparr>fanout_queues := (fanout_queues s)(queue \<mapsto> exchange)\<rparr>)
            else (Inr (), s)) of
        (Inl e, s1) \<Rightarrow> (Inl e, s1)
      | (Inr _, s1) \<Rightarrow>
          let meta = \<lparr>r_exchange = exchange, r_queue = queue,
                      r_routing_key = routing_key, r_pattern = pattern\<rparr> in
          (case Channel_client s1 of
             (Inl e, s2) \<Rightarrow> (Inl e, s2)
           | (Inr d, s2) \<Rightarrow> routing_update_upsert d meta meta s2))"

text \<open>\<open>queue_delete\<close>; \<open>super_queue_delete\<close> is the method of the base class,
  which is not part of the sources. The cursor popped from the dictionary is closed,
  which leaves nothing of it in the state; the read count of the queue stays.\<close>

definition Channel_queue_delete ::
  "(queue \<Rightarrow> state \<Rightarrow> (error + unit) \<times> state) \<Rightarrow> queue \<Rightarrow> state \<Rightarrow> (error + unit) \<times> state" where
  "Channel_queue_delete super_queue_delete queue s =
     (case routing s of
        None \<Rightarrow> (Inl AttributeError, s)
      | Some r \<Rightarrow>
          (case routing_remove r queue s of
             (Inl e, s1) \<Rightarrow> (Inl e, s1)
           | (Inr _, s1) \<Rightarrow>
               (case super_queue_delete queue s1 of
                  (Inl e, s2) \<Rightarrow> (Inl e, s2)
                | (Inr _, s2) \<Rightarrow>
                    if queue \<in> dom (fanout_queues s2)
                    then (Inr (), s2\<lparr>queue_cursors := (queue_cursors s2)(queue := None),
                                     fanout_queues := (fanout_queues s2)(queue := None)\<rparr>)
                    else (Inr (), s2))))"

definition Channel_get_table ::
  "exchange \<Rightarrow> state \<Rightarrow> (error + (string \<times> string \<times> string) set) \<times> state" where
  "Channel_get_table exchange s =
     (case exchange_table s exchange of
        None \<Rightarrow> (Inl KeyError, s)
      | Some localRoutes \<Rightarrow>
          (case Channel_client s of
             (Inl e, s1) \<Rightarrow> (Inl e, s1)
           | (Inr d, s1) \<Rightarrow>
               (case routing_find d exchange s1 of
                  Inl e \<Rightarrow> (Inl e, s1)
                | Inr brokerRoutes \<Rightarrow>
                    (Inr (set localRoutes \<union>
                          set (map (\<lambda>r. (r_routing_key r, r_pattern r, r_queue r)) brokerRoutes)),
                     s1))))"

text \<open>\<open>__init__\<close>: the two dictionaries of cursors and read counts are made for the
  instance. \<open>_fanout_queues\<close> is not assigned here: the instance sees the dictionary
  bound in the class body. \<open>_client\<close> starts as the class default None; \<open>db\<close>,
  \<open>bcast\<close> and \<open>routing\<close> are not set before \<open>_open\<close>.\<close>

definition Channel_init ::
  "client_cfg \<Rightarrow> (exchange \<Rightarrow> string) \<Rightarrow> (exchange \<rightharpoonup> (string \<times> string \<times> string) list)
     \<Rightarrow> (queue \<rightharpoonup> exchange) \<Rightarrow> server \<Rightarrow> state" where
  "Channel_init cfg types tables class_fanout_queues srv =
     \<lparr>fanout_queues = class_fanout_queues, mongo = srv, connection_client = cfg,
      client = None, db = None, bcast = None, routing = None,
      queue_cursors = Map.empty, queue_readcounts = Map.empty,
      exchange_type = types, exchange_table = tables\<rparr>"

subsection \<open>Several channels in one process\<close>

text \<open>
  A process holds the class \<open>Channel\<close> with its one \<open>_fanout_queues\<close> dictionary,
  the store, and the channel instances. A method call on channel \<open>i\<close> runs on the
  view of that channel: its own attributes, the class attribute and the store; what
  the call leaves in the class attribute and the store is there for every channel.
\<close>

record process =
  class_fanout_queues :: "queue \<rightharpoonup> exchange"
  store :: server
  chan :: "nat \<Rightarrow> state"

definition view :: "nat \<Rightarrow> process \<Rightarrow> state" where
  "view i p = (chan p i)\<lparr>fanout_queues := class_fanout_queues p, mongo := store p\<rparr>"

definition on_channel :: "nat \<Rightarrow> (state \<Rightarrow> 'r \<times> state) \<Rightarrow> process \<Rightarrow> 'r \<times> process" where
  "on_channel i call p =
     (case call (view i p) of
        (r, s') \<Rightarrow> (r, p\<lparr>class_fanout_queues := fanout_queues s', store := mongo s',
                        chan := (chan p)(i := s')\<rparr>))"

subsection \<open>Sequences of calls and conditions on states\<close>

fun run_all :: "('a \<Rightarrow> state \<Rightarrow> 'r \<times> state) \<Rightarrow> 'a list \<Rightarrow> state \<Rightarrow> 'r list \<times> state" where
  "run_all call [] s = ([], s)"
| "run_all call (x # xs) s =
     (case call x s of
        (r, s1) \<Rightarrow> (case run_all call xs s1 of (rs, s2) \<Rightarrow> (r # rs, s2)))"

text \<open>The name of the database the channel works on: the cached handle, or the one
  \<open>_open\<close> will take from the virtual host.\<close>

definition handle :: "state \<Rightarrow> string" where
  "handle s =
     (case client s of
        Some d \<Rightarrow> d
      | None \<Rightarrow> (case virtual_host (connection_client s) of
                   None \<Rightarrow> []
                 | Some vh \<Rightarrow> if vh = ''/'' then ''kombu_default'' else vh))"

text \<open>The store answers, and the channel is bootstrapped or can be: its handle is
  cached together with the broadcast and routing collections, or a virtual host is
  given that makes a database name pymongo accepts and the server's version is 1.3 or
  later.\<close>

definition store_ready :: "state \<Rightarrow> bool" where
  "store_ready s =
     (fault (mongo s) = None \<and>
      (case client s of
         Some d \<Rightarrow> bcast s = Some d \<and> routing s = Some d
       | None \<Rightarrow> virtual_host (connection_client s) \<noteq> None \<and>
                 valid_database_name (handle s) \<and>
                 (case version_tuple (version (mongo s)) of
                    None \<Rightarrow> False
                  | Some t \<Rightarrow> \<not> tuple_lt t [1, 3])))"

definition empty_database :: database where
  "empty_database = \<lparr>collection_names = [], capped = [], indexes = [],
                      messages_docs = [], broadcast_docs = [], routing_docs = []\<rparr>"

text \<open>A server without documents; a broadcast document takes 48 bytes and the bytes
  of its two strings.\<close>

definition new_server :: "string \<Rightarrow> bool \<Rightarrow> server" where
  "new_server v legacy =
     \<lparr>version = v, dbs = (\<lambda>_. empty_database), next_id = 0, fault = None,
      raises_no_match = legacy,
      record_bytes = (\<lambda>b. 48 + length (bc_queue b) + length (bc_payload b))\<rparr>"

text \<open>The state after the property \<open>client\<close> was read, and the states in which the
  handle is cached and the store answers.\<close>

definition opened :: "state \<Rightarrow> state" where
  "opened s = snd (Channel_client s)"

definition open_at :: "string \<Rightarrow> state \<Rightarrow> bool" where
  "open_at d s =
     (fault (mongo s) = None \<and> client s = Some d \<and> bcast s = Some d \<and> routing s = Some d)"

text \<open>The documents of a point-to-point queue, in insertion order.\<close>

definition qdocs :: "string \<Rightarrow> queue \<Rightarrow> state \<Rightarrow> message_doc list" where
  "qdocs d q s = filter (\<lambda>m. doc_queue m = q) (messages_docs (the_db d s))"

text \<open>A channel that was just made, on a new server of version 2.0.1: \<open>logs\<close> is a
  fanout exchange, every other exchange is direct.\<close>

definition example_channel :: state where
  "example_channel =
     Channel_init \<lparr>virtual_host = Some ''/'', capped_queue_size = None\<rparr>
       (\<lambda>e. if e = ''logs'' then ''fanout'' else ''direct'')
       [''ev'' \<mapsto> [], ''logs'' \<mapsto> []] Map.empty (new_server ''2.0.1'' False)"

text \<open>What the first-in-first-out argument keeps: the channel is open, the queue is
  point-to-point, and its documents lie in the collection in ascending order of
  identifiers below the counter.\<close>

definition fifo_inv :: "string \<Rightarrow> queue \<Rightarrow> state \<Rightarrow> bool" where
  "fifo_inv d q s = (open_at d s \<and> q \<notin> dom (fanout_queues s)
      \<and> sorted_wrt (<) (map doc_id (qdocs d q s))
      \<and> (\<forall>x \<in> set (qdocs d q s). doc_id x < next_id (mongo s)))"


text \<open>The channel can get to the store: a virtual host is given, or the handle is cached
  together with the broadcast and routing collections.\<close>

definition configured :: "state \<Rightarrow> bool" where
  "configured s =
     (case client s of
        None \<Rightarrow> virtual_host (connection_client s) \<noteq> None
      | Some d \<Rightarrow> bcast s = Some d \<and> routing s = Some d)"

text \<open>Channels on a server that reports a find-and-remove without a match as an
  operation failure, with a queue bound to a fanout exchange, and on servers that fail
  every round trip.\<close>

definition legacy_channel :: state where
  "legacy_channel =
     Channel_init \<lparr>virtual_host = Some ''/'', capped_queue_size = None\<rparr>
       (\<lambda>e. ''direct'') Map.empty Map.empty (new_server ''1.8.5'' True)"

definition bound_channel :: state where
  "bound_channel = snd (Channel_queue_bind ''logs'' ''k'' ''p'' ''q1'' example_channel)"

definition failing_channel :: "store_failure \<Rightarrow> state" where
  "failing_channel f = example_channel\<lparr>mongo := (mongo example_channel)\<lparr>fault := Some f\<rparr>\<rparr>"

text \<open>What the dequeues of a fanout queue keep: the channel is open and the queue is
  registered and has a read count and a cursor on the broadcast collection, at a
  position within the collection.\<close>

definition fan_inv :: "string \<Rightarrow> queue \<Rightarrow> state \<Rightarrow> bool" where
  "fan_inv d q s =
     (open_at d s \<and> fanout_queues s q \<noteq> None \<and> queue_readcounts s q \<noteq> None \<and>
      (case queue_cursors s q of
         None \<Rightarrow> False
       | Some c \<Rightarrow> cur_db c = d \<and>
                   cur_skip c + cur_retrieved c \<le> length (broadcast_docs (the_db d s))))"

text \<open>The broadcast documents the cursor of a queue has not returned yet.\<close>

definition unread :: "string \<Rightarrow> queue \<Rightarrow> state \<Rightarrow> broadcast_doc list" where
  "unread d q s =
     (case queue_cursors s q of
        None \<Rightarrow> []
      | Some c \<Rightarrow> drop (cur_skip c + cur_retrieved c) (broadcast_docs (the_db d s)))"

text \<open>Before any queue is bound: the exchange \<open>logs\<close> has the two broadcasts x and
  y, and another exchange has the broadcast w.\<close>

definition published_channel :: state where
  "published_channel =
     snd (run_all (\<lambda>(x, m). Channel_put_fanout id x m)
            [(''logs'', ''x''), (''other'', ''w''), (''logs'', ''y'')] example_channel)"












text \<open>Two states in which the queue \<open>q\<close> reads the same: same registry, same
  broadcast documents, same cursor and read count of \<open>q\<close>.\<close>

definition same_for :: "queue \<Rightarrow> state \<Rightarrow> state \<Rightarrow> bool" where
  "same_for q s s' =
     (fanout_queues s' = fanout_queues s \<and> queue_cursors s' q = queue_cursors s q \<and>
      queue_readcounts s' q = queue_readcounts s q \<and>
      (\<forall>d. broadcast_docs (the_db d s') = broadcast_docs (the_db d s)))"

text \<open>A process with new channels on one new server, and the same process after
  channel 0 has bound \<open>q1\<close> to the fanout exchange \<open>logs\<close>.\<close>

definition two_channels :: process where
  "two_channels = \<lparr>class_fanout_queues = Map.empty, store = new_server ''2.0.1'' False,
                    chan = (\<lambda>i. example_channel)\<rparr>"

definition bound_process :: process where
  "bound_process =
     snd (on_channel 0 (Channel_queue_bind ''logs'' ''k'' ''p'' ''q1'') two_channels)"


section \<open>Properties\<close>

subsection \<open>The store and the bootstrap leave the rest of the state alone\<close>

lemma upd_db_fields [simp]:
  "fanout_queues (upd_db d f s) = fanout_queues s"
  "connection_client (upd_db d f s) = connection_client s"
  "client (upd_db d f s) = client s"
  "db (upd_db d f s) = db s"
  "bcast (upd_db d f s) = bcast s"
  "routing (upd_db d f s) = routing s"
  "queue_cursors (upd_db d f s) = queue_cursors s"
  "queue_readcounts (upd_db d f s) = queue_readcounts s"
  "exchange_type (upd_db d f s) = exchange_type s"
  "exchange_table (upd_db d f s) = exchange_table s"
  "fault (mongo (upd_db d f s)) = fault (mongo s)"
  "version (mongo (upd_db d f s)) = version (mongo s)"
  "next_id (mongo (upd_db d f s)) = next_id (mongo s)"
  "raises_no_match (mongo (upd_db d f s)) = raises_no_match (mongo s)"
  "record_bytes (mongo (upd_db d f s)) = record_bytes (mongo s)"
  by (simp_all add: upd_db_def)

lemma the_db_upd_db [simp]:
  "the_db d' (upd_db d f s) = (if d' = d then f (the_db d s) else the_db d' s)"
  by (simp add: the_db_def upd_db_def)

lemma the_db_fields [simp]:
  "the_db d (s\<lparr>client := c\<rparr>) = the_db d s"
  "the_db d (s\<lparr>db := x\<rparr>) = the_db d s"
  "the_db d (s\<lparr>bcast := x\<rparr>) = the_db d s"
  "the_db d (s\<lparr>routing := x\<rparr>) = the_db d s"
  "the_db d (s\<lparr>queue_cursors := qc\<rparr>) = the_db d s"
  "the_db d (s\<lparr>queue_readcounts := qr\<rparr>) = the_db d s"
  "the_db d (s\<lparr>fanout_queues := fq\<rparr>) = the_db d s"
  by (simp_all add: the_db_def)

lemma Channel_open_ok:
  assumes "fault (mongo s) = None" "virtual_host (connection_client s) = Some vh"
    "version_tuple (version (mongo s)) = Some t" "\<not> tuple_lt t [1, 3]"
    "valid_database_name (if vh = ''/'' then ''kombu_default'' else vh)"
  shows "\<exists>s'. Channel_open s = (Inr (if vh = ''/'' then ''kombu_default'' else vh), s')
     \<and> bcast s' = Some (if vh = ''/'' then ''kombu_default'' else vh)
     \<and> routing s' = Some (if vh = ''/'' then ''kombu_default'' else vh)
     \<and> client s' = client s
     \<and> fanout_queues s' = fanout_queues s \<and> queue_cursors s' = queue_cursors s
     \<and> queue_readcounts s' = queue_readcounts s \<and> exchange_type s' = exchange_type s
     \<and> exchange_table s' = exchange_table s \<and> connection_client s' = connection_client s
     \<and> fault (mongo s') = None \<and> version (mongo s') = version (mongo s)
     \<and> next_id (mongo s') = next_id (mongo s) \<and> raises_no_match (mongo s') = raises_no_match (mongo s)
     \<and> record_bytes (mongo s') = record_bytes (mongo s)
     \<and> (\<forall>d. messages_docs (the_db d s') = messages_docs (the_db d s)
           \<and> broadcast_docs (the_db d s') = broadcast_docs (the_db d s)
           \<and> routing_docs (the_db d s') = routing_docs (the_db d s))"
  using assms
  by (simp add: Channel_open_def Connection_def server_info_def ensure_index_def
      get_collection_names_def create_collection_def Let_def)

lemma open_at_client: "open_at d s \<Longrightarrow> Channel_client s = (Inr d, s)"
  by (simp add: open_at_def Channel_client_def)

lemma open_at_ready: "open_at d s \<Longrightarrow> store_ready s \<and> handle s = d"
  by (simp add: open_at_def store_ready_def handle_def)

lemma open_at_opened: "open_at d s \<Longrightarrow> opened s = s"
  by (simp add: opened_def open_at_client)

lemma ready_client:
  assumes "store_ready s"
  shows "Channel_client s = (Inr (handle s), opened s) \<and> open_at (handle s) (opened s)
     \<and> fanout_queues (opened s) = fanout_queues s \<and> queue_cursors (opened s) = queue_cursors s
     \<and> queue_readcounts (opened s) = queue_readcounts s \<and> exchange_type (opened s) = exchange_type s
     \<and> exchange_table (opened s) = exchange_table s
     \<and> connection_client (opened s) = connection_client s
     \<and> version (mongo (opened s)) = version (mongo s)
     \<and> next_id (mongo (opened s)) = next_id (mongo s)
     \<and> raises_no_match (mongo (opened s)) = raises_no_match (mongo s)
     \<and> record_bytes (mongo (opened s)) = record_bytes (mongo s)
     \<and> (\<forall>d. messages_docs (the_db d (opened s)) = messages_docs (the_db d s)
           \<and> broadcast_docs (the_db d (opened s)) = broadcast_docs (the_db d s)
           \<and> routing_docs (the_db d (opened s)) = routing_docs (the_db d s))"
proof (cases "client s")
  case (Some d)
  with assms have "open_at d s" by (simp add: store_ready_def open_at_def)
  then show ?thesis using Some by (simp add: open_at_opened open_at_client handle_def)
next
  case None
  with assms obtain vh t where h: "fault (mongo s) = None"
     "virtual_host (connection_client s) = Some vh"
     "version_tuple (version (mongo s)) = Some t" "\<not> tuple_lt t [1, 3]"
     "valid_database_name (if vh = ''/'' then ''kombu_default'' else vh)"
    by (auto simp: store_ready_def handle_def split: option.splits)
  from Channel_open_ok [OF h] obtain s' where
    o: "Channel_open s = (Inr (if vh = ''/'' then ''kombu_default'' else vh), s')" and
    f: "bcast s' = Some (if vh = ''/'' then ''kombu_default'' else vh)"
     "routing s' = Some (if vh = ''/'' then ''kombu_default'' else vh)"
     "client s' = client s"
     "fanout_queues s' = fanout_queues s" "queue_cursors s' = queue_cursors s"
     "queue_readcounts s' = queue_readcounts s" "exchange_type s' = exchange_type s"
     "exchange_table s' = exchange_table s" "connection_client s' = connection_client s"
     "fault (mongo s') = None" "version (mongo s') = version (mongo s)"
     "next_id (mongo s') = next_id (mongo s)" "raises_no_match (mongo s') = raises_no_match (mongo s)"
     "record_bytes (mongo s') = record_bytes (mongo s)"
     "\<forall>d. messages_docs (the_db d s') = messages_docs (the_db d s)
           \<and> broadcast_docs (the_db d s') = broadcast_docs (the_db d s)
           \<and> routing_docs (the_db d s') = routing_docs (the_db d s)"
    by blast
  have c: "Channel_client s = (Inr (handle s), s'\<lparr>client := Some (handle s)\<rparr>)"
    using None o h(2) by (simp add: Channel_client_def handle_def)
  then have "opened s = s'\<lparr>client := Some (handle s)\<rparr>" by (simp add: opened_def)
  then show ?thesis using c f None h(2)
    by (simp add: open_at_def handle_def)
qed

subsection \<open>Declaring a queue\<close>

text \<open>C10: declaring a new queue is a no-op. For every queue name \<open>_new_queue\<close>
  returns normally and leaves the whole state as it was: the channel's cursors, read
  counts and fanout registry, and every collection of the store.\<close>

theorem new_queue_noop: "Channel_new_queue queue s = (Inr (), s)"
  by (simp add: Channel_new_queue_def)

subsection \<open>Purging a fanout queue\<close>

text \<open>C2, at a fanout queue with one unread message: the queue \<open>q1\<close> is bound to the
  fanout exchange \<open>logs\<close>, one message is published to \<open>logs\<close>, and the queue is
  purged. The purge returns the size 1 that the queue had, the next dequeue signals
  empty, but the size reported after the purge is still 1, not 0: \<open>_purge\<close> moves the
  cursor past the messages and leaves the read count as it was.\<close>

theorem fanout_purge_keeps_size:
  "(case Channel_queue_bind ''logs'' ''k'' ''p'' ''q1'' example_channel of (r1, s1) \<Rightarrow>
    case Channel_put_fanout id ''logs'' ''z'' s1 of (r2, s2) \<Rightarrow>
    case Channel_purge ''q1'' s2 of (r3, s3) \<Rightarrow>
      r1 = Inr () \<and> r2 = Inr () \<and> fst (Channel_size ''q1'' s2) = Inr 1 \<and> r3 = Inr 1 \<and>
      fst (Channel_size ''q1'' s3) = Inr 1 \<and>
      fst (Channel_get id ''q1'' s3) = (Inl Empty :: error + string))"
  by code_simp

subsection \<open>Point-to-point queues are first-in-first-out\<close>

lemma oldest_mem: "oldest xs = Some e \<Longrightarrow> e \<in> set xs"
  by (induction xs arbitrary: e) (auto split: option.splits if_splits)

lemma oldest_sorted:
  assumes "sorted_wrt (<) (map doc_id (x # xs))"
  shows "oldest (x # xs) = Some x"
proof (cases "oldest xs")
  case None
  then show ?thesis by simp
next
  case (Some e)
  then have "e \<in> set xs" by (rule oldest_mem)
  with assms have "doc_id x < doc_id e" by auto
  with Some show ?thesis by simp
qed

lemma filter_remove1_first: "filter P xs = m # rest \<Longrightarrow> filter P (remove1 m xs) = rest"
proof (induction xs)
  case Nil
  then show ?case by simp
next
  case (Cons a xs)
  show ?case
  proof (cases "P a")
    case True
    with Cons.prems show ?thesis by simp
  next
    case False
    with Cons.prems have f: "filter P xs = m # rest" by simp
    then have "m \<in> set (filter P xs)" by simp
    then have "P m" by simp
    with False have "a \<noteq> m" by auto
    with f False Cons.IH show ?thesis by simp
  qed
qed

lemma put_step:
  assumes "fifo_inv d q s"
  shows "\<exists>s'. Channel_put dumps q m s = (Inr (), s') \<and> fifo_inv d q s'
     \<and> map doc_payload (qdocs d q s') = map doc_payload (qdocs d q s) @ [dumps m]"
proof -
  from assms have o: "open_at d s" by (simp add: fifo_inv_def)
  then have f: "fault (mongo s) = None" by (simp add: open_at_def)
  obtain s' where s': "s' = snd (messages_insert d (dumps m) q s)" by simp
  have p: "Channel_put dumps q m s = (Inr (), s')"
    using o f s' by (simp add: Channel_put_def open_at_client messages_insert_def)
  have q: "qdocs d q s' = qdocs d q s @ [\<lparr>doc_id = next_id (mongo s), doc_queue = q, doc_payload = dumps m\<rparr>]"
    using f s' by (simp add: messages_insert_def qdocs_def the_db_def)
  have n: "next_id (mongo s') = Suc (next_id (mongo s))"
    using f s' by (simp add: messages_insert_def)
  have o': "open_at d s'" "fanout_queues s' = fanout_queues s"
    using o f s' by (simp_all add: messages_insert_def open_at_def)
  have "fifo_inv d q s'"
    using assms o' q n by (auto simp: fifo_inv_def sorted_wrt_append less_Suc_eq)
  with p q show ?thesis by simp
qed

lemma get_step:
  assumes "fifo_inv d q s" "qdocs d q s = x # xs"
  shows "\<exists>s'. Channel_get loads q s = (Inr (loads (doc_payload x)), s') \<and> fifo_inv d q s'
     \<and> qdocs d q s' = xs"
proof -
  from assms have o: "oldest (filter (\<lambda>m. doc_queue m = q) (messages_docs (the_db d s))) = Some x"
    using oldest_sorted [of x xs] by (simp add: fifo_inv_def qdocs_def)
  have r: "filter (\<lambda>m. doc_queue m = q) (remove1 x (messages_docs (the_db d s))) = xs"
    using assms(2) by (simp add: qdocs_def filter_remove1_first)
  from assms have op: "open_at d s" and nf: "fanout_queues s q = None"
    by (auto simp: fifo_inv_def)
  obtain s' where s': "s' = upd_db d (\<lambda>b. b\<lparr>messages_docs := remove1 x (messages_docs b)\<rparr>) s"
    by simp
  have g: "Channel_get loads q s = (Inr (loads (doc_payload x)), s')"
    using op nf o s' by (simp add: Channel_get_def open_at_client findandmodify_def open_at_def dom_def)
  have q': "qdocs d q s' = xs" using r s' by (simp add: qdocs_def)
  have "fifo_inv d q s'"
    using assms q' op s' by (auto simp: fifo_inv_def open_at_def)
  with g q' show ?thesis by simp
qed

lemma get_empty:
  assumes "fifo_inv d q s" "qdocs d q s = []"
  shows "Channel_get loads q s = (Inl Empty, s)"
proof -
  from assms have op: "open_at d s" and nf: "fanout_queues s q = None"
    by (auto simp: fifo_inv_def)
  have c: "contains ''No matching object found'' no_match_errmsg"
    by (simp add: no_match_errmsg_def)
  show ?thesis using op nf assms(2) c
    by (simp add: Channel_get_def open_at_client findandmodify_def open_at_def dom_def
        qdocs_def get_except_def)
qed

lemma puts_run:
  assumes "fifo_inv d q s"
  shows "\<exists>s'. run_all (Channel_put dumps q) ms s = (replicate (length ms) (Inr ()), s')
     \<and> fifo_inv d q s'
     \<and> map doc_payload (qdocs d q s') = map doc_payload (qdocs d q s) @ map dumps ms"
  using assms
proof (induction ms arbitrary: s)
  case Nil
  then show ?case by simp
next
  case (Cons m ms)
  from put_step [OF Cons.prems, of dumps m] obtain s1 where
    s1: "Channel_put dumps q m s = (Inr (), s1)" "fifo_inv d q s1"
      "map doc_payload (qdocs d q s1) = map doc_payload (qdocs d q s) @ [dumps m]"
    by blast
  from Cons.IH [OF s1(2)] obtain s2 where
    s2: "run_all (Channel_put dumps q) ms s1 = (replicate (length ms) (Inr ()), s2)"
      "fifo_inv d q s2"
      "map doc_payload (qdocs d q s2) = map doc_payload (qdocs d q s1) @ map dumps ms"
    by blast
  show ?case using s1 s2 by simp
qed

lemma gets_run:
  assumes "fifo_inv d q s" "qdocs d q s = xs"
  shows "fst (run_all (\<lambda>_. Channel_get loads q) (replicate (Suc (length xs)) ()) s)
           = map (\<lambda>x. Inr (loads (doc_payload x))) xs @ [Inl Empty]"
  using assms
proof (induction xs arbitrary: s)
  case Nil
  then show ?case by (simp add: get_empty)
next
  case (Cons x xs)
  from get_step [OF Cons.prems, of loads] obtain s1 where
    s1: "Channel_get loads q s = (Inr (loads (doc_payload x)), s1)" "fifo_inv d q s1"
      "qdocs d q s1 = xs"
    by blast
  from Cons.IH [OF s1(2,3)] s1(1) show ?case
    by (simp split: prod.splits)
qed

lemma ready_opened:
  assumes "store_ready s"
  shows "Channel_client (opened s) = (Inr (handle s), opened s)" "store_ready (opened s)"
    "handle (opened s) = handle s" "opened (opened s) = opened s"
proof -
  from ready_client [OF assms] have o: "open_at (handle s) (opened s)" by simp
  then show "Channel_client (opened s) = (Inr (handle s), opened s)" by (rule open_at_client)
  from o show "store_ready (opened s)" "handle (opened s) = handle s"
    by (simp_all add: open_at_ready)
  from o show "opened (opened s) = opened s" by (rule open_at_opened)
qed

lemma put_opened:
  "store_ready s \<Longrightarrow> Channel_put dumps q m s = Channel_put dumps q m (opened s)"
  by (simp add: Channel_put_def ready_client ready_opened)

lemma ensure_cursor_opened:
  "store_ready s \<Longrightarrow> Channel_ensure_cursor q s = Channel_ensure_cursor q (opened s)"
  by (simp add: Channel_ensure_cursor_def ready_client ready_opened)

lemma get_opened:
  "store_ready s \<Longrightarrow> Channel_get loads q s = Channel_get loads q (opened s)"
  using ensure_cursor_opened [of s q]
  by (simp add: Channel_get_def ready_client ready_opened)

lemma run_all_first:
  assumes "call x s = call x s'"
  shows "run_all call (x # xs) s = run_all call (x # xs) s'"
  using assms by simp

text \<open>C1: first in, first out. On a channel whose store answers, for a point-to-point
  queue \<open>q\<close> that holds no document, and a serializer that round-trips: after the
  messages \<open>ms\<close> are enqueued one after the other, each enqueue returning normally,
  \<open>length ms + 1\<close> dequeues return the messages of \<open>ms\<close> in their order, each
  once, and the last one signals empty.\<close>

theorem fifo_order:
  assumes "store_ready s" and "q \<notin> dom (fanout_queues s)"
    and "qdocs (handle s) q s = []" and "\<And>m. loads (dumps m) = m"
  shows "case run_all (Channel_put dumps q) ms s of
           (rs, s1) \<Rightarrow>
             rs = replicate (length ms) (Inr ()) \<and>
             fst (run_all (\<lambda>_. Channel_get loads q) (replicate (Suc (length ms)) ()) s1)
               = map Inr ms @ [Inl Empty]"
proof -
  let ?d = "handle s"
  let ?get = "\<lambda>_::unit. Channel_get loads q"
  from ready_client [OF assms(1)] assms(2,3) have inv: "fifo_inv ?d q (opened s)"
    by (simp add: fifo_inv_def qdocs_def)
  have q0: "qdocs ?d q (opened s) = []"
    using ready_client [OF assms(1)] assms(3) by (simp add: qdocs_def)
  from puts_run [OF inv, of dumps ms] obtain s' where
    s': "run_all (Channel_put dumps q) ms (opened s) = (replicate (length ms) (Inr ()), s')"
      "fifo_inv ?d q s'"
      "map doc_payload (qdocs ?d q s') = map dumps ms"
    using q0 by auto
  have len: "length (qdocs ?d q s') = length ms"
    using s'(3) by (metis length_map)
  have m: "map (\<lambda>x. Inr (loads (doc_payload x))) (qdocs ?d q s') = map Inr ms"
  proof -
    have "map (\<lambda>x. Inr (loads (doc_payload x))) (qdocs ?d q s')
        = map (\<lambda>p. Inr (loads p)) (map doc_payload (qdocs ?d q s'))"
      by (simp add: comp_def)
    also have "\<dots> = map (\<lambda>p. Inr (loads p)) (map dumps ms)"
      by (simp only: s'(3))
    also have "\<dots> = map Inr ms"
      using assms(4) by (simp add: comp_def)
    finally show ?thesis .
  qed
  have res: "fst (run_all ?get (replicate (Suc (length ms)) ()) s') = map Inr ms @ [Inl Empty]"
    using gets_run [OF s'(2) refl, of loads] unfolding len m .
  show ?thesis
  proof (cases ms)
    case Nil
    have "run_all ?get (replicate (Suc 0) ()) s = run_all ?get (replicate (Suc 0) ()) (opened s)"
      using get_opened [OF assms(1), of loads q] by simp
    moreover from Nil s'(1) have "s' = opened s" by simp
    ultimately show ?thesis using Nil res by simp
  next
    case (Cons m ms')
    have "run_all (Channel_put dumps q) ms s = run_all (Channel_put dumps q) ms (opened s)"
      unfolding Cons by (rule run_all_first) (rule put_opened [OF assms(1)])
    then show ?thesis using s'(1) res by simp
  qed
qed

text \<open>The scenario of the spec: enqueue A then B into \<open>orders\<close>; the dequeues
  give A, B, empty.\<close>

theorem fifo_order_witness:
  "store_ready example_channel \<and> ''orders'' \<notin> dom (fanout_queues example_channel) \<and>
   qdocs (handle example_channel) ''orders'' example_channel = [] \<and>
   (case run_all (Channel_put id ''orders'') [''A'', ''B''] example_channel of
      (rs, s1) \<Rightarrow>
        rs = [Inr (), Inr ()] \<and>
        fst (run_all (\<lambda>_. Channel_get id ''orders'') [(), (), ()] s1)
          = [Inr ''A'', Inr ''B'', Inl Empty])"
proof -
  have h1: "store_ready example_channel" by code_simp
  have h2: "''orders'' \<notin> dom (fanout_queues example_channel)"
    by (simp add: example_channel_def Channel_init_def)
  have h3: "qdocs (handle example_channel) ''orders'' example_channel = []" by code_simp
  from fifo_order [where s = example_channel and q = "''orders''" and loads = id
      and dumps = id and ms = "[''A'', ''B'']", OF h1 h2 h3] h1 h2 h3
  show ?thesis by (simp add: numeral_3_eq_3 numeral_2_eq_2)
qed

subsection \<open>The bootstrap\<close>



text \<open>A virtual host that makes no database name pymongo accepts: the bootstrap raises
  InvalidName before it asks for the version, and nothing is written.\<close>

lemma Channel_open_invalid_name:
  assumes "fault (mongo s) = None" "virtual_host (connection_client s) = Some vh"
    "\<not> valid_database_name (if vh = ''/'' then ''kombu_default'' else vh)"
  shows "Channel_open s = (Inl InvalidName, s)"
  using assms by (simp add: Channel_open_def Connection_def)






subsection \<open>What a dequeue raises\<close>

lemma client_fault:
  assumes "configured s" "fault (mongo s) = Some f" "client s = None"
  shows "Channel_client s = (Inl (to_error f), s)"
  using assms
  by (auto simp: configured_def Channel_client_def Channel_open_def Connection_def)

lemma get_fault:
  assumes "configured s" "fault (mongo s) = Some f"
  shows "Channel_get loads q s = (Inl (get_except (to_error f)), s)"
proof (cases "client s")
  case None
  from client_fault [OF assms None] show ?thesis
    by (simp add: Channel_get_def Channel_ensure_cursor_def)
next
  case (Some d)
  then have c: "Channel_client s = (Inr d, s)" by (simp add: Channel_client_def)
  from assms(1) Some have b: "bcast s = Some d" by (simp add: configured_def)
  show ?thesis
  proof (cases "fanout_queues s q")
    case None
    then show ?thesis using c assms(2)
      by (simp add: Channel_get_def findandmodify_def dom_def)
  next
    case e: (Some e)
    show ?thesis
    proof (cases "queue_cursors s q")
      case None
      then show ?thesis using c b e assms(2)
        by (simp add: Channel_get_def Channel_ensure_cursor_def cursor_count_def dom_def)
    next
      case (Some cur)
      then show ?thesis using c b e assms(2)
        by (simp add: Channel_get_def Channel_ensure_cursor_def cursor_next_def dom_def)
    qed
  qed
qed

lemma ensure_cursor_existing:
  assumes "open_at d s" "fanout_queues s q = Some e" "queue_cursors s q = Some c"
  shows "Channel_ensure_cursor q s = (Inr (), s)"
  using assms by (simp add: Channel_ensure_cursor_def open_at_client)

lemma ensure_cursor_new:
  assumes "open_at d s" "fanout_queues s q = Some e" "queue_cursors s q = None"
  shows "Channel_ensure_cursor q s =
    (Inr (), s\<lparr>queue_cursors := (queue_cursors s)
                   (q \<mapsto> \<lparr>cur_db = d, cur_skip = length (broadcast_docs (the_db d s)),
                          cur_retrieved = 0\<rparr>),
                queue_readcounts := (queue_readcounts s)
                   (q \<mapsto> int (length (broadcast_docs (the_db d s))))\<rparr>)"
  using assms
  by (simp add: Channel_ensure_cursor_def open_at_client open_at_def cursor_count_def
      bcast_find_def cursor_skip_def cursor_matching_def)

lemma get_fanout_exhausted:
  assumes "open_at d s" "fanout_queues s q = Some e" "queue_cursors s q = Some c"
    "length (cursor_matching c s) \<le> cur_skip c + cur_retrieved c"
  shows "Channel_get loads q s = (Inl Empty, s)"
  using assms ensure_cursor_existing [OF assms(1-3)]
  by (simp add: Channel_get_def dom_def cursor_next_def open_at_def get_except_def)


lemma get_fanout_unbound_cursor:
  assumes "open_at d s" "fanout_queues s q = Some e" "queue_cursors s q = None"
  shows "fst (Channel_get loads q s) = Inl Empty"
  using assms ensure_cursor_new [OF assms]
  by (simp add: Channel_get_def dom_def cursor_next_def open_at_def get_except_def
      cursor_matching_def)

lemma cursor_matching_opened:
  "store_ready s \<Longrightarrow> cursor_matching c (opened s) = cursor_matching c s"
  using ready_client [of s] by (simp add: cursor_matching_def)

text \<open>C6: what a dequeue signals. On a channel whose store answers, a dequeue on a
  point-to-point queue without documents signals Empty, whether the server reports the
  missing match as an operation failure or as a null value; so does a dequeue on a
  fanout queue whose cursor is at the end of the documents of the broadcast collection
  or is yet to be made. When the store fails with an operation failure whose text contains
  \<open>No matching object found\<close> the dequeue signals Empty as well; any other operation
  failure, and any connection failure, is raised to the caller as the store raised it.\<close>

theorem get_signals:
  "(store_ready s \<and> q \<notin> dom (fanout_queues s) \<and> qdocs (handle s) q s = []
      \<longrightarrow> fst (Channel_get loads q s) = Inl Empty) \<and>
   (store_ready s \<and> fanout_queues s q = Some e \<and>
    (case queue_cursors s q of
       None \<Rightarrow> True
     | Some c \<Rightarrow> length (cursor_matching c s) \<le> cur_skip c + cur_retrieved c)
      \<longrightarrow> fst (Channel_get loads q s) = Inl Empty) \<and>
   (configured s \<and> fault (mongo s) = Some (OpFail m)
      \<longrightarrow> fst (Channel_get loads q s) =
            Inl (if contains ''No matching object found'' m then Empty else OperationFailure m)) \<and>
   (configured s \<and> fault (mongo s) = Some (ConnFail m)
      \<longrightarrow> fst (Channel_get loads q s) = Inl (ConnectionFailure m))"
proof (intro conjI impI)
  assume a: "store_ready s \<and> q \<notin> dom (fanout_queues s) \<and> qdocs (handle s) q s = []"
  then have r: "store_ready s" by simp
  from ready_client [OF r] a have "fifo_inv (handle s) q (opened s)"
    "qdocs (handle s) q (opened s) = []"
    by (simp_all add: fifo_inv_def qdocs_def)
  then have "Channel_get loads q (opened s) = (Inl Empty, opened s)" by (rule get_empty)
  then show "fst (Channel_get loads q s) = Inl Empty"
    using get_opened [OF r, of loads q] by simp
next
  assume a: "store_ready s \<and> fanout_queues s q = Some e \<and>
    (case queue_cursors s q of
       None \<Rightarrow> True
     | Some c \<Rightarrow> length (cursor_matching c s) \<le> cur_skip c + cur_retrieved c)"
  then have r: "store_ready s" by simp
  from ready_client [OF r] a have o: "open_at (handle s) (opened s)"
    and f: "fanout_queues (opened s) q = Some e"
    and c: "queue_cursors (opened s) q = queue_cursors s q"
    by simp_all
  have "fst (Channel_get loads q (opened s)) = Inl Empty"
  proof (cases "queue_cursors s q")
    case None
    with c have "queue_cursors (opened s) q = None" by simp
    from get_fanout_unbound_cursor [OF o f this, of loads] show ?thesis .
  next
    case (Some cur)
    with a have len: "length (cursor_matching cur (opened s)) \<le> cur_skip cur + cur_retrieved cur"
      by (simp add: cursor_matching_opened [OF r])
    from Some c have qc: "queue_cursors (opened s) q = Some cur" by simp
    from get_fanout_exhausted [OF o f qc len, of loads] show ?thesis by simp
  qed
  then show "fst (Channel_get loads q s) = Inl Empty"
    using get_opened [OF r, of loads q] by simp
next
  assume "configured s \<and> fault (mongo s) = Some (OpFail m)"
  then show "fst (Channel_get loads q s) =
            Inl (if contains ''No matching object found'' m then Empty else OperationFailure m)"
    using get_fault [of s "OpFail m" loads q] by (simp add: get_except_def)
next
  assume "configured s \<and> fault (mongo s) = Some (ConnFail m)"
  then show "fst (Channel_get loads q s) = Inl (ConnectionFailure m)"
    using get_fault [of s "ConnFail m" loads q] by (simp add: get_except_def)
qed

text \<open>An empty point-to-point queue on a server of either kind, a fanout queue right
  after its bind, and three failing servers.\<close>

theorem get_signals_witness:
  "\<not> raises_no_match (mongo example_channel) \<and>
   fst (Channel_get id ''orders'' example_channel) = (Inl Empty :: error + string) \<and>
   raises_no_match (mongo legacy_channel) \<and>
   fst (Channel_get id ''orders'' legacy_channel) = (Inl Empty :: error + string) \<and>
   fanout_queues bound_channel ''q1'' = Some ''logs'' \<and>
   fst (Channel_get id ''q1'' bound_channel) = (Inl Empty :: error + string) \<and>
   fst (Channel_get id ''orders'' (failing_channel (OpFail ''exception: No matching object found'')))
     = (Inl Empty :: error + string) \<and>
   fst (Channel_get id ''orders'' (failing_channel (OpFail ''not master'')))
     = (Inl (OperationFailure ''not master'') :: error + string) \<and>
   fst (Channel_get id ''orders'' (failing_channel (ConnFail ''connection closed'')))
     = (Inl (ConnectionFailure ''connection closed'') :: error + string)"
proof -
  have a: "store_ready example_channel \<and> ''orders'' \<notin> dom (fanout_queues example_channel) \<and>
      qdocs (handle example_channel) ''orders'' example_channel = []"
    "\<not> raises_no_match (mongo example_channel)"
    by (simp add: example_channel_def Channel_init_def, code_simp) code_simp
  have b: "store_ready legacy_channel \<and> ''orders'' \<notin> dom (fanout_queues legacy_channel) \<and>
      qdocs (handle legacy_channel) ''orders'' legacy_channel = []"
    "raises_no_match (mongo legacy_channel)"
    by (simp add: legacy_channel_def Channel_init_def, code_simp) code_simp
  have c: "store_ready bound_channel \<and> fanout_queues bound_channel ''q1'' = Some ''logs'' \<and>
    (case queue_cursors bound_channel ''q1'' of
       None \<Rightarrow> True
     | Some c \<Rightarrow> length (cursor_matching c bound_channel) \<le> cur_skip c + cur_retrieved c)"
    by code_simp
  have d: "configured (failing_channel f)" "fault (mongo (failing_channel f)) = Some f" for f
    by (simp_all add: configured_def failing_channel_def example_channel_def Channel_init_def)
  have e: "contains ''No matching object found'' ''exception: No matching object found''"
    "\<not> contains ''No matching object found'' ''not master''"
    by code_simp+
  from get_signals [where s = example_channel and q = "''orders''" and loads = id]
    get_signals [where s = legacy_channel and q = "''orders''" and loads = id]
    get_signals [where s = bound_channel and q = "''q1''" and loads = id and e = "''logs''"]
    get_signals [where s = "failing_channel (OpFail ''exception: No matching object found'')"
      and q = "''orders''" and loads = id and m = "''exception: No matching object found''"]
    get_signals [where s = "failing_channel (OpFail ''not master'')"
      and q = "''orders''" and loads = id and m = "''not master''"]
    get_signals [where s = "failing_channel (ConnFail ''connection closed'')"
      and q = "''orders''" and loads = id and m = "''connection closed''"]
    a b c d e
  show ?thesis by simp
qed

subsection \<open>A call on one queue leaves the cursors of the other queues alone\<close>

lemma open_same_for: "same_for q s (snd (Channel_open s))"
proof (cases "fault (mongo s)")
  case None
  then show ?thesis
    by (simp add: same_for_def Channel_open_def Connection_def server_info_def ensure_index_def
        get_collection_names_def create_collection_def Let_def split: option.split)
next
  case (Some f)
  then show ?thesis
    by (simp add: same_for_def Channel_open_def Connection_def split: option.split)
qed

lemma client_same_for: "same_for q s (snd (Channel_client s))"
  using open_same_for [of q s]
  by (auto simp: Channel_client_def same_for_def split: option.split prod.split sum.split)



lemma cursor_matching_upd [simp]:
  "cursor_matching c (s\<lparr>queue_cursors := qc\<rparr>) = cursor_matching c s"
  "cursor_matching c (s\<lparr>queue_readcounts := qr\<rparr>) = cursor_matching c s"
  by (simp_all add: cursor_matching_def)



subsection \<open>Binding a fanout queue\<close>

lemma ready_fanout_upd:
  "store_ready (s\<lparr>fanout_queues := fq\<rparr>) = store_ready s"
  "handle (s\<lparr>fanout_queues := fq\<rparr>) = handle s"
  by (simp_all add: store_ready_def handle_def split: option.splits)


text \<open>C3, at an exchange beside another one: \<open>logs\<close> holds the broadcasts x and y and
  the exchange \<open>other\<close> holds w when \<open>q1\<close> is bound to \<open>logs\<close>. The bind sets skip
  position and read count to 3, the number of all broadcasts, not to the 2 of \<open>logs\<close>;
  and when v is then published to \<open>other\<close> and z to \<open>logs\<close>, the collection
  holding all five broadcasts, the dequeues of \<open>q1\<close> return v and then z: the cursor
  made by \<open>_ensure_cursor\<close> has no filter.\<close>

theorem bind_counts_every_exchange:
  "length (filter (\<lambda>b. bc_queue b = ''logs'')
             (broadcast_docs (the_db ''kombu_default'' published_channel))) = 2 \<and>
   (case Channel_queue_bind ''logs'' ''k'' ''p'' ''q1'' published_channel of
      (r, s1) \<Rightarrow>
        r = Inr () \<and> fanout_queues s1 ''q1'' = Some ''logs'' \<and>
        map_option cur_skip (queue_cursors s1 ''q1'') = Some 3 \<and>
        queue_readcounts s1 ''q1'' = Some 3 \<and>
        (case run_all (\<lambda>(x, m). Channel_put_fanout id x m)
                [(''other'', ''v''), (''logs'', ''z'')] s1 of
           (rs, s2) \<Rightarrow>
             rs = [Inr (), Inr ()] \<and>
             map bc_payload (broadcast_docs (the_db ''kombu_default'' s2))
               = [''x'', ''w'', ''y'', ''v'', ''z''] \<and>
             fst (run_all (\<lambda>_. Channel_get id ''q1'') [(), (), ()] s2)
               = [Inr ''v'', Inr ''z'', Inl Empty]))"
  by code_simp

subsection \<open>Every bound queue gets every broadcast\<close>












subsection \<open>Bindings are upserts\<close>

lemma replace_first_same: "replace_first (\<lambda>r. r = y) y xs = xs"
  by (induction xs) auto

lemma ensure_cursor_ready:
  assumes "store_ready s" "fanout_queues s q = Some e"
  shows "\<exists>s1. Channel_ensure_cursor q s = (Inr (), s1) \<and> open_at (handle s) s1 \<and>
     exchange_table s1 = exchange_table s \<and>
     (\<forall>d. routing_docs (the_db d s1) = routing_docs (the_db d s))"
proof -
  from ready_client [OF assms(1)] assms(2) have o: "open_at (handle s) (opened s)"
    and f: "fanout_queues (opened s) q = Some e"
    and t: "exchange_table (opened s) = exchange_table s"
    and r: "\<forall>d. routing_docs (the_db d (opened s)) = routing_docs (the_db d s)"
    by simp_all
  show ?thesis
  proof (cases "queue_cursors (opened s) q")
    case None
    from ensure_cursor_new [OF o f None] ensure_cursor_opened [OF assms(1), of q] o t r
    show ?thesis by (simp add: open_at_def)
  next
    case (Some c)
    from ensure_cursor_existing [OF o f Some] ensure_cursor_opened [OF assms(1), of q] o t r
    show ?thesis by simp
  qed
qed

lemma bind_routing:
  assumes "store_ready s"
  shows "\<exists>s1. Channel_queue_bind e rk pat q s = (Inr (), s1) \<and> open_at (handle s) s1 \<and>
     exchange_table s1 = exchange_table s \<and>
     routing_docs (the_db (handle s) s1) =
       (if \<lparr>r_exchange = e, r_queue = q, r_routing_key = rk, r_pattern = pat\<rparr>
             \<in> set (routing_docs (the_db (handle s) s))
        then routing_docs (the_db (handle s) s)
        else routing_docs (the_db (handle s) s) @
               [\<lparr>r_exchange = e, r_queue = q, r_routing_key = rk, r_pattern = pat\<rparr>])"
proof -
  let ?d = "handle s"
  let ?meta = "\<lparr>r_exchange = e, r_queue = q, r_routing_key = rk, r_pattern = pat\<rparr>"
  have "\<exists>s0. (if exchange_type s e = ''fanout''
            then Channel_ensure_cursor q (s\<lparr>fanout_queues := (fanout_queues s)(q \<mapsto> e)\<rparr>)
            else (Inr (), s)) = (Inr (), s0) \<and> store_ready s0 \<and> handle s0 = ?d \<and>
          exchange_table s0 = exchange_table s \<and>
          routing_docs (the_db ?d s0) = routing_docs (the_db ?d s)"
  proof (cases "exchange_type s e = ''fanout''")
    case True
    let ?s0 = "s\<lparr>fanout_queues := (fanout_queues s)(q \<mapsto> e)\<rparr>"
    have "store_ready ?s0" "handle ?s0 = ?d" "fanout_queues ?s0 q = Some e"
      using assms by (simp_all add: ready_fanout_upd)
    from ensure_cursor_ready [OF this(1,3)] this(2) True show ?thesis
      by (auto simp: open_at_ready)
  next
    case False
    with assms show ?thesis by simp
  qed
  then obtain s0 where s0: "(if exchange_type s e = ''fanout''
            then Channel_ensure_cursor q (s\<lparr>fanout_queues := (fanout_queues s)(q \<mapsto> e)\<rparr>)
            else (Inr (), s)) = (Inr (), s0)" "store_ready s0" "handle s0 = ?d"
          "exchange_table s0 = exchange_table s"
          "routing_docs (the_db ?d s0) = routing_docs (the_db ?d s)"
    by blast
  from ready_client [OF s0(2)] s0(3) have c: "Channel_client s0 = (Inr ?d, opened s0)"
    and o: "open_at ?d (opened s0)"
    and t: "exchange_table (opened s0) = exchange_table s0"
    and r: "routing_docs (the_db ?d (opened s0)) = routing_docs (the_db ?d s0)"
    by simp_all
  have b: "Channel_queue_bind e rk pat q s = routing_update_upsert ?d ?meta ?meta (opened s0)"
    unfolding Channel_queue_bind_def s0(1) using c by (simp add: Let_def)
  from o have nf: "fault (mongo (opened s0)) = None" by (simp add: open_at_def)
  show ?thesis
    unfolding b using nf o t r s0(4,5)
    by (simp add: routing_update_upsert_def replace_first_same open_at_def)
qed

lemma get_table_open:
  assumes "open_at d s" "exchange_table s e = Some localRoutes"
  shows "Channel_get_table e s =
    (Inr (set localRoutes \<union>
          (\<lambda>r. (r_routing_key r, r_pattern r, r_queue r)) `
             {r \<in> set (routing_docs (the_db d s)). r_exchange r = e}), s)"
  using assms
  by (simp add: Channel_get_table_def open_at_client routing_find_def open_at_def)

text \<open>C5: binding is idempotent. On a channel whose store answers and whose local
  table for the exchange \<open>e\<close> is \<open>localRoutes\<close>, when the routing collection holds
  the row (e, q, rk, pat) at most once: after two binds of that tuple, both returning
  normally, the collection holds the row exactly once, the second bind having changed
  no row; and \<open>get_table\<close> returns the set that unites the local table with the
  (routing key, pattern, queue) triples of the rows of \<open>e\<close>, which has the triple
  (rk, pat, q) as a member.\<close>

theorem bind_twice_one_row:
  assumes "store_ready s" and "exchange_table s e = Some localRoutes"
    and "count_list (routing_docs (the_db (handle s) s))
           \<lparr>r_exchange = e, r_queue = q, r_routing_key = rk, r_pattern = pat\<rparr> \<le> 1"
  shows "case Channel_queue_bind e rk pat q s of
           (r1, s1) \<Rightarrow>
             (case Channel_queue_bind e rk pat q s1 of
                (r2, s2) \<Rightarrow>
                  r1 = Inr () \<and> r2 = Inr () \<and>
                  routing_docs (the_db (handle s) s2) = routing_docs (the_db (handle s) s1) \<and>
                  count_list (routing_docs (the_db (handle s) s2))
                    \<lparr>r_exchange = e, r_queue = q, r_routing_key = rk, r_pattern = pat\<rparr> = 1 \<and>
                  fst (Channel_get_table e s2) =
                    Inr (set localRoutes \<union>
                         (\<lambda>r. (r_routing_key r, r_pattern r, r_queue r)) `
                           {r \<in> set (routing_docs (the_db (handle s) s2)). r_exchange r = e}) \<and>
                  (case fst (Channel_get_table e s2) of
                     Inl err \<Rightarrow> False
                   | Inr table \<Rightarrow> (rk, pat, q) \<in> table))"
proof -
  let ?d = "handle s"
  let ?meta = "\<lparr>r_exchange = e, r_queue = q, r_routing_key = rk, r_pattern = pat\<rparr>"
  let ?R = "routing_docs (the_db ?d s)"
  from bind_routing [OF assms(1), of e rk pat q] obtain s1 where
    s1: "Channel_queue_bind e rk pat q s = (Inr (), s1)" "open_at ?d s1"
      "exchange_table s1 = exchange_table s"
      "routing_docs (the_db ?d s1) = (if ?meta \<in> set ?R then ?R else ?R @ [?meta])"
    by blast
  from open_at_ready [OF s1(2)] have r1: "store_ready s1" and h1: "handle s1 = ?d" by simp_all
  have in1: "?meta \<in> set (routing_docs (the_db ?d s1))" using s1(4) by simp
  from bind_routing [OF r1, of e rk pat q] h1 in1 obtain s2 where
    s2: "Channel_queue_bind e rk pat q s1 = (Inr (), s2)" "open_at ?d s2"
      "exchange_table s2 = exchange_table s1"
      "routing_docs (the_db ?d s2) = routing_docs (the_db ?d s1)"
    by auto
  have cnt: "count_list (routing_docs (the_db ?d s1)) ?meta = 1"
  proof (cases "?meta \<in> set ?R")
    case True
    then have "count_list ?R ?meta \<noteq> 0" using count_list_0_iff [of ?R ?meta] by blast
    then have "0 < count_list ?R ?meta" by simp
    with assms(3) True s1(4) show ?thesis by simp
  next
    case False
    then have "count_list ?R ?meta = 0" using count_list_0_iff [of ?R ?meta] by blast
    with False s1(4) show ?thesis by simp
  qed
  have tab: "exchange_table s2 e = Some localRoutes" using s2(3) s1(3) assms(2) by simp
  have mem: "(rk, pat, q) \<in> (\<lambda>r. (r_routing_key r, r_pattern r, r_queue r)) `
                           {r \<in> set (routing_docs (the_db ?d s2)). r_exchange r = e}"
    using in1 s2(4) by (force simp: image_iff)
  show ?thesis
    unfolding s1(1) using s2(1,4) cnt mem get_table_open [OF s2(2) tab]
    by simp
qed

text \<open>The scenario of the spec: (ev, k, p, q) is bound twice on a new channel; the
  table of \<open>ev\<close> has the one entry (k, p, q).\<close>

theorem bind_twice_one_row_witness:
  "(case Channel_queue_bind ''ev'' ''k'' ''p'' ''q'' example_channel of
      (r1, s1) \<Rightarrow>
        (case Channel_queue_bind ''ev'' ''k'' ''p'' ''q'' s1 of
           (r2, s2) \<Rightarrow>
             r1 = Inr () \<and> r2 = Inr () \<and>
             routing_docs (the_db ''kombu_default'' s2)
               = [\<lparr>r_exchange = ''ev'', r_queue = ''q'', r_routing_key = ''k'', r_pattern = ''p''\<rparr>] \<and>
             fst (Channel_get_table ''ev'' s2) = Inr {(''k'', ''p'', ''q'')}))"
proof -
  have a: "store_ready example_channel" "exchange_table example_channel ''ev'' = Some []"
    "handle example_channel = ''kombu_default''"
    "routing_docs (the_db ''kombu_default'' example_channel) = []"
    by code_simp+
  have c: "count_list (routing_docs (the_db (handle example_channel) example_channel))
           \<lparr>r_exchange = ''ev'', r_queue = ''q'', r_routing_key = ''k'', r_pattern = ''p''\<rparr> \<le> 1"
    using a(3,4) by simp
  have d: "routing_docs (the_db ''kombu_default''
              (snd (Channel_queue_bind ''ev'' ''k'' ''p'' ''q''
                 (snd (Channel_queue_bind ''ev'' ''k'' ''p'' ''q'' example_channel)))))
            = [\<lparr>r_exchange = ''ev'', r_queue = ''q'', r_routing_key = ''k'', r_pattern = ''p''\<rparr>]"
    by code_simp
  from bind_twice_one_row [OF a(1,2) c] a(3) d
  show ?thesis by (auto split: prod.splits)
qed

subsection \<open>What channels of one process share\<close>

lemma ensure_cursor_registry:
  "fanout_queues (snd (Channel_ensure_cursor q s)) = fanout_queues s"
  using client_same_for [of q s]
  by (auto simp: Channel_ensure_cursor_def same_for_def
      split: option.split prod.split sum.split)

lemma bind_registry:
  assumes "Channel_queue_bind e rk pat q s = (Inr (), s')" "exchange_type s e = ''fanout''"
  shows "fanout_queues s' q = Some e"
proof -
  let ?s0 = "s\<lparr>fanout_queues := (fanout_queues s)(q \<mapsto> e)\<rparr>"
  obtain r1 s1 where e1: "Channel_ensure_cursor q ?s0 = (r1, s1)"
    by (cases "Channel_ensure_cursor q ?s0")
  from ensure_cursor_registry [of q ?s0] e1 have f1: "fanout_queues s1 q = Some e" by simp
  obtain r2 s2 where c2: "Channel_client s1 = (r2, s2)" by (cases "Channel_client s1")
  from client_same_for [of q s1] c2 f1 have f2: "fanout_queues s2 q = Some e"
    by (simp add: same_for_def)
  from assms e1 c2 f2 show ?thesis
    by (auto simp: Channel_queue_bind_def Let_def routing_update_upsert_def
        split: sum.splits option.splits)
qed

lemma delete_registry:
  assumes "Channel_queue_delete super_queue_delete q s = (Inr (), s')"
  shows "fanout_queues s' q = None"
  using assms
  by (auto simp: Channel_queue_delete_def
      split: option.splits prod.splits sum.splits if_splits)

lemma view_other:
  assumes "i \<noteq> j" "on_channel i call p = (r, p')"
  shows "chan p' j = chan p j" "fanout_queues (view j p') = fanout_queues (snd (call (view i p)))"
  using assms by (auto simp: on_channel_def view_def split: prod.splits)

text \<open>C8, amended: cursors and read counts belong to the channel instance; the
  fanout-queue registry belongs to the class. For two different channels \<open>i\<close> and
  \<open>j\<close> of a process, binding or deleting a queue on channel \<open>i\<close> leaves the cursors
  and the read counts of channel \<open>j\<close> as they were. The registry is shared: after a
  bind of \<open>q\<close> to a fanout exchange \<open>e\<close> that returns normally on channel \<open>i\<close>,
  channel \<open>j\<close> sees \<open>q\<close> registered for \<open>e\<close>, and after a delete of \<open>q\<close> that
  returns normally on channel \<open>i\<close>, channel \<open>j\<close> sees \<open>q\<close> unregistered.\<close>

theorem channel_private_cursors:
  assumes "i \<noteq> j"
  shows "(case on_channel i (Channel_queue_bind e rk pat q) p of
            (r, p') \<Rightarrow>
              queue_cursors (view j p') = queue_cursors (view j p) \<and>
              queue_readcounts (view j p') = queue_readcounts (view j p) \<and>
              (r = Inr () \<and> exchange_type (view i p) e = ''fanout''
                 \<longrightarrow> fanout_queues (view j p') q = Some e)) \<and>
         (case on_channel i (Channel_queue_delete super_queue_delete q) p of
            (r, p') \<Rightarrow>
              queue_cursors (view j p') = queue_cursors (view j p) \<and>
              queue_readcounts (view j p') = queue_readcounts (view j p) \<and>
              (r = Inr () \<longrightarrow> fanout_queues (view j p') q = None))"
proof (rule conjI)
  obtain r p' where o: "on_channel i (Channel_queue_bind e rk pat q) p = (r, p')"
    by (cases "on_channel i (Channel_queue_bind e rk pat q) p")
  from view_other [OF assms o] have c: "chan p' j = chan p j"
    and f: "fanout_queues (view j p')
              = fanout_queues (snd (Channel_queue_bind e rk pat q (view i p)))"
    by simp_all
  have "fanout_queues (view j p') q = Some e"
    if "r = Inr ()" "exchange_type (view i p) e = ''fanout''"
  proof -
    from o that(1) have "fst (Channel_queue_bind e rk pat q (view i p)) = Inr ()"
      by (auto simp: on_channel_def split: prod.splits)
    then have "Channel_queue_bind e rk pat q (view i p)
                 = (Inr (), snd (Channel_queue_bind e rk pat q (view i p)))"
      by (metis prod.collapse)
    from bind_registry [OF this that(2)] f show ?thesis by simp
  qed
  with c show "case on_channel i (Channel_queue_bind e rk pat q) p of
            (r, p') \<Rightarrow>
              queue_cursors (view j p') = queue_cursors (view j p) \<and>
              queue_readcounts (view j p') = queue_readcounts (view j p) \<and>
              (r = Inr () \<and> exchange_type (view i p) e = ''fanout''
                 \<longrightarrow> fanout_queues (view j p') q = Some e)"
    unfolding o by (simp add: view_def)
next
  obtain r p' where o: "on_channel i (Channel_queue_delete super_queue_delete q) p = (r, p')"
    by (cases "on_channel i (Channel_queue_delete super_queue_delete q) p")
  from view_other [OF assms o] have c: "chan p' j = chan p j"
    and f: "fanout_queues (view j p')
              = fanout_queues (snd (Channel_queue_delete super_queue_delete q (view i p)))"
    by simp_all
  have "fanout_queues (view j p') q = None" if "r = Inr ()"
  proof -
    from o that have "fst (Channel_queue_delete super_queue_delete q (view i p)) = Inr ()"
      by (auto simp: on_channel_def split: prod.splits)
    then have "Channel_queue_delete super_queue_delete q (view i p)
                 = (Inr (), snd (Channel_queue_delete super_queue_delete q (view i p)))"
      by (metis prod.collapse)
    from delete_registry [OF this] f show ?thesis by simp
  qed
  with c show "case on_channel i (Channel_queue_delete super_queue_delete q) p of
            (r, p') \<Rightarrow>
              queue_cursors (view j p') = queue_cursors (view j p) \<and>
              queue_readcounts (view j p') = queue_readcounts (view j p) \<and>
              (r = Inr () \<longrightarrow> fanout_queues (view j p') q = None)"
    unfolding o by (simp add: view_def)
qed

text \<open>Channel 0 binds \<open>q1\<close> to \<open>logs\<close> and then deletes it, the base class doing
  nothing; channel 1 keeps its empty cursors and sees the registry change both times.\<close>

theorem channel_private_cursors_witness:
  "(0::nat) \<noteq> 1 \<and>
   (case on_channel 0 (Channel_queue_bind ''logs'' ''k'' ''p'' ''q1'') two_channels of
      (r, p') \<Rightarrow>
        r = Inr () \<and> queue_cursors (view 1 p') ''q1'' = None \<and>
        queue_readcounts (view 1 p') ''q1'' = None \<and>
        queue_cursors (view 0 p') ''q1'' \<noteq> None \<and>
        fanout_queues (view 1 p') ''q1'' = Some ''logs'') \<and>
   (case on_channel 0 (Channel_queue_delete (\<lambda>queue s. (Inr (), s)) ''q1'') bound_process of
      (r, p') \<Rightarrow>
        r = Inr () \<and> queue_cursors (view 1 p') ''q1'' = None \<and>
        queue_readcounts (view 1 p') ''q1'' = None \<and>
        fanout_queues (view 1 p') ''q1'' = None)"
proof -
  have a: "(0::nat) \<noteq> 1" by simp
  have b: "fst (on_channel 0 (Channel_queue_bind ''logs'' ''k'' ''p'' ''q1'') two_channels) = Inr ()"
    "exchange_type (view 0 two_channels) ''logs'' = ''fanout''"
    "queue_cursors (view 1 two_channels) ''q1'' = None"
    "queue_readcounts (view 1 two_channels) ''q1'' = None"
    "queue_cursors (view 0 (snd (on_channel 0 (Channel_queue_bind ''logs'' ''k'' ''p'' ''q1'')
        two_channels))) ''q1'' \<noteq> None"
    by code_simp+
  have c: "fst (on_channel 0 (Channel_queue_delete (\<lambda>queue s. (Inr (), s)) ''q1'') bound_process)
             = Inr ()"
    "queue_cursors (view 1 bound_process) ''q1'' = None"
    "queue_readcounts (view 1 bound_process) ''q1'' = None"
    by code_simp+
  from channel_private_cursors [OF a, where p = two_channels and e = "''logs''" and rk = "''k''"
      and pat = "''p''" and q = "''q1''", THEN conjunct1]
    channel_private_cursors [OF a, where p = bound_process and q = "''q1''"
      and super_queue_delete = "\<lambda>queue s. (Inr (), s)", THEN conjunct2]
    b c
  show ?thesis by (auto split: prod.splits)
qed

text \<open>C8 as stated fails for the registry: before channel 0 binds \<open>q1\<close> to the
  fanout exchange \<open>logs\<close>, channel 1 does not have \<open>q1\<close> among its fanout queues;
  after the bind on channel 0 it has, and its size of \<open>q1\<close>, which was that of a
  point-to-point queue, is read from a cursor that channel 1 makes for it.\<close>

theorem shared_registry_counterexample:
  "fanout_queues (view 1 two_channels) ''q1'' = None \<and>
   fanout_queues (view 1 bound_process) ''q1'' = Some ''logs'' \<and>
   queue_cursors (view 1 (snd (on_channel 1 (Channel_size ''q1'') two_channels))) ''q1'' = None \<and>
   queue_cursors (view 1 (snd (on_channel 1 (Channel_size ''q1'') bound_process))) ''q1'' \<noteq> None"
  by code_simp

subsection \<open>Purge and size\<close>

text \<open>On a point-to-point queue the purge returns the number of documents of the queue
  and the size after it is 0.\<close>

lemma size_opened:
  "store_ready s \<Longrightarrow> Channel_size q s = Channel_size q (opened s)"
  using ensure_cursor_opened [of s q]
  by (simp add: Channel_size_def ready_client ready_opened)

lemma purge_point_to_point:
  assumes "store_ready s" "q \<notin> dom (fanout_queues s)"
  shows "case Channel_purge q s of
           (r, s') \<Rightarrow>
             r = Inr (int (length (qdocs (handle s) q s))) \<and>
             fst (Channel_size q s) = r \<and> fst (Channel_size q s') = Inr 0"
proof -
  let ?d = "handle s"
  from ready_client [OF assms(1)] assms(2) have o: "open_at ?d (opened s)"
    and f: "fanout_queues (opened s) q = None"
    and m: "messages_docs (the_db ?d (opened s)) = messages_docs (the_db ?d s)"
    by (simp_all add: dom_def)
  from o have nf: "fault (mongo (opened s)) = None" by (simp add: open_at_def)
  have sz: "Channel_size q (opened s) = (Inr (int (length (qdocs ?d q s))), opened s)"
    using f nf m open_at_client [OF o]
    by (simp add: Channel_size_def dom_def messages_count_def qdocs_def)
  let ?s' = "upd_db ?d (\<lambda>b. b\<lparr>messages_docs :=
               filter (\<lambda>m. doc_queue m \<noteq> q) (messages_docs b)\<rparr>) (opened s)"
  have p: "Channel_purge q s = (Inr (int (length (qdocs ?d q s))), ?s')"
    using size_opened [OF assms(1), of q] sz f nf open_at_client [OF o]
    by (simp add: Channel_purge_def dom_def messages_remove_def)
  have o': "open_at ?d ?s'" using o by (simp add: open_at_def)
  have "Channel_size q ?s' = (Inr 0, ?s')"
    using f o' open_at_client [OF o']
    by (simp add: Channel_size_def dom_def messages_count_def open_at_def)
  then show ?thesis
    unfolding p using size_opened [OF assms(1), of q] sz by simp
qed

text \<open>On a fanout queue the purge returns the size, the cursor is at the end after it,
  and the size after it is the size before it.\<close>

lemma purge_fanout:
  assumes "fan_inv d q s"
  shows "case Channel_purge q s of
           (r, s') \<Rightarrow>
             r = fst (Channel_size q s) \<and> fst (Channel_size q s') = r \<and>
             unread d q s' = []"
proof -
  from assms obtain c n e where c: "queue_cursors s q = Some c" "cur_db c = d"
    and n: "queue_readcounts s q = Some n" and o: "open_at d s"
    and f: "fanout_queues s q = Some e"
    by (auto simp: fan_inv_def split: option.splits)
  from o have nf: "fault (mongo s) = None" by (simp add: open_at_def)
  let ?docs = "broadcast_docs (the_db d s)"
  have m: "cursor_matching c s = ?docs"
    using c by (simp add: cursor_matching_def)
  have sz: "Channel_size q s = (Inr (int (length ?docs) - n), s)"
    using ensure_cursor_existing [OF o f c(1)] f c(1) n nf m
    by (simp add: Channel_size_def dom_def cursor_count_def)
  let ?c' = "c\<lparr>cur_retrieved := 0, cur_skip := length ?docs\<rparr>"
  let ?s' = "s\<lparr>queue_cursors := (queue_cursors s)(q \<mapsto> ?c')\<rparr>"
  have p: "Channel_purge q s = (Inr (int (length ?docs) - n), ?s')"
    using sz f c nf
    by (simp add: Channel_purge_def dom_def cursor_count_def cursor_rewind_def cursor_skip_def
        cursor_matching_def)
  have o': "open_at d ?s'" using o by (simp add: open_at_def)
  have f': "fanout_queues ?s' q = Some e" "queue_cursors ?s' q = Some ?c'" using f by simp_all
  have "Channel_size q ?s' = (Inr (int (length ?docs) - n), ?s')"
    using ensure_cursor_existing [OF o' f'] f n nf c
    by (simp add: Channel_size_def dom_def cursor_count_def cursor_matching_def)
  moreover have "unread d q ?s' = []" by (simp add: unread_def)
  ultimately show ?thesis unfolding p using sz by simp
qed

end
